theory Spec2Isabelle
  imports Main
begin

section \<open>Configuration constants of server.js\<close>

definition GRIB_DATA_DIR :: string where
  "GRIB_DATA_DIR = ''grib''"

definition JSON_DATA_DIR :: string where
  "JSON_DATA_DIR = ''json''"

definition KEEP_LAST_N_DATASETS :: nat where
  "KEEP_LAST_N_DATASETS = 5"

text \<open>
  \<^verbatim>\<open>const APPROX_PUBLISH_DELAY_MS = 13320000; // 3.7 hours\<close> in the express variant
  (lines 1 to 314 of server.js). The http variant (lines 316 to 591) writes
  \<^verbatim>\<open>APPROX_PUBLISH_DELAY_HOURS = 3.7\<close> and turns it into a moment duration, which holds
  the same 13320000 milliseconds: 3 hours and 42 minutes.
\<close>

definition APPROX_PUBLISH_DELAY_MS :: int where
  "APPROX_PUBLISH_DELAY_MS = 13320000"

definition SIX_HOURS_MS :: int where
  "SIX_HOURS_MS = 21600000"

section \<open>Instants and the moment library\<close>

text \<open>
  A moment in UTC mode is modelled by the number it wraps: milliseconds since
  1970-01-01T00:00:00Z, an unbounded \<open>int\<close>. JavaScript time has no leap seconds, so the
  UTC fields are plain arithmetic on that number; \<open>div\<close> and \<open>mod\<close> on \<open>int\<close> round
  towards minus infinity, which is what the fields of an instant before 1970 need.
\<close>

type_synonym instant = int

definition hour_of :: "instant \<Rightarrow> int" where
  "hour_of t = (t div 3600000) mod 24"

definition minute_of :: "instant \<Rightarrow> int" where
  "minute_of t = (t div 60000) mod 60"

definition second_of :: "instant \<Rightarrow> int" where
  "second_of t = (t div 1000) mod 60"

definition millisecond_of :: "instant \<Rightarrow> int" where
  "millisecond_of t = t mod 1000"

text \<open>\<^verbatim>\<open>m.set("hour", h)\<close> and its siblings replace one UTC field and keep the others.\<close>

definition set_hours :: "int \<Rightarrow> instant \<Rightarrow> instant" where
  "set_hours h t = t - hour_of t * 3600000 + h * 3600000"

definition set_minutes :: "int \<Rightarrow> instant \<Rightarrow> instant" where
  "set_minutes m t = t - minute_of t * 60000 + m * 60000"

definition set_seconds :: "int \<Rightarrow> instant \<Rightarrow> instant" where
  "set_seconds s t = t - second_of t * 1000 + s * 1000"

definition set_milliseconds :: "int \<Rightarrow> instant \<Rightarrow> instant" where
  "set_milliseconds ms t = t - millisecond_of t + ms"

definition subtract_hours :: "int \<Rightarrow> instant \<Rightarrow> instant" where
  "subtract_hours h t = t - h * 3600000"

text \<open>
  The proleptic Gregorian date of a day number (days since 1970-01-01), and back,
  by the usual era arithmetic: an era is 400 years, 146097 days, and starts on 1 March.
\<close>

definition civil_from_days :: "int \<Rightarrow> int \<times> int \<times> int" where
  "civil_from_days z0 =
     (let z = z0 + 719468;
          era = z div 146097;
          doe = z - era * 146097;
          yoe = (doe - doe div 1460 + doe div 36524 - doe div 146096) div 365;
          y = yoe + era * 400;
          doy = doe - (365 * yoe + yoe div 4 - yoe div 100);
          mp = (5 * doy + 2) div 153;
          d = doy - (153 * mp + 2) div 5 + 1;
          m = (if mp < 10 then mp + 3 else mp - 9)
      in (if m \<le> 2 then y + 1 else y, m, d))"

definition days_from_civil :: "int \<Rightarrow> int \<Rightarrow> int \<Rightarrow> int" where
  "days_from_civil y0 m d =
     (let y = (if m \<le> 2 then y0 - 1 else y0);
          era = y div 400;
          yoe = y - era * 400;
          doy = (153 * (if m > 2 then m - 3 else m + 9) + 2) div 5 + d - 1;
          doe = yoe * 365 + yoe div 4 - yoe div 100 + doy
      in era * 146097 + doe - 719468)"

definition year_of :: "instant \<Rightarrow> int" where
  "year_of t = fst (civil_from_days (t div 86400000))"

definition month_of :: "instant \<Rightarrow> int" where
  "month_of t = fst (snd (civil_from_days (t div 86400000)))"

definition day_of :: "instant \<Rightarrow> int" where
  "day_of t = snd (snd (civil_from_days (t div 86400000)))"

subsection \<open>Numbers as strings\<close>

fun digits :: "nat \<Rightarrow> string" where
  "digits n = (if n < 10 then [''0123456789'' ! n]
               else digits (n div 10) @ [''0123456789'' ! (n mod 10)])"

declare digits.simps [simp del]

text \<open>\<^verbatim>\<open>String(n)\<close> and \<^verbatim>\<open>n.toString()\<close> of an integer.\<close>

definition toString :: "int \<Rightarrow> string" where
  "toString n = (if n < 0 then ''-'' @ digits (nat (- n)) else digits (nat n))"

text \<open>\<^verbatim>\<open>s.padStart(n, "0")\<close>.\<close>

definition padStart :: "nat \<Rightarrow> string \<Rightarrow> string" where
  "padStart n s = replicate (n - length s) CHR ''0'' @ s"

text \<open>
  moment's \<^verbatim>\<open>zeroFill\<close>, which its format tokens \<^verbatim>\<open>YYYY\<close>, \<^verbatim>\<open>MM\<close>, \<^verbatim>\<open>DD\<close> and \<^verbatim>\<open>HH\<close>
  use: the absolute value padded with zeros, a minus sign in front of a negative number.
\<close>

definition zeroFill :: "nat \<Rightarrow> int \<Rightarrow> string" where
  "zeroFill n v = (if v < 0 then ''-'' else '''') @ padStart n (digits (nat \<bar>v\<bar>))"

definition format_HH :: "instant \<Rightarrow> string" where
  "format_HH t = zeroFill 2 (hour_of t)"

definition format_YYYYMMDD :: "instant \<Rightarrow> string" where
  "format_YYYYMMDD t = zeroFill 4 (year_of t) @ zeroFill 2 (month_of t) @ zeroFill 2 (day_of t)"

definition format_YYYYMMDDHH :: "instant \<Rightarrow> string" where
  "format_YYYYMMDDHH t = format_YYYYMMDD t @ format_HH t"

definition is_digit :: "char \<Rightarrow> bool" where
  "is_digit c = (c \<in> set ''0123456789'')"

definition digit_value :: "char \<Rightarrow> int" where
  "digit_value c = int (of_char c) - 48"

text \<open>
  \<^verbatim>\<open>parseInt(s)\<close> and \<^verbatim>\<open>parseInt(s, 10)\<close> on a string that starts with a decimal digit:
  the value of the leading run of digits. On a string with no leading
  digit JavaScript gives NaN; the program only calls it on the result of
  \<^verbatim>\<open>getClosestInterval\<close>, which is one of 00, 06, 12 and 18 there (lemma
  \<open>getClosestInterval_cases\<close> below).
\<close>

definition parseInt :: "string \<Rightarrow> int" where
  "parseInt s = foldl (\<lambda>n c. 10 * n + digit_value c) 0 (takeWhile is_digit s)"

text \<open>
  moment's reading of an ISO 8601 string of the form \<^verbatim>\<open>YYYY-MM-DDTHH:MM:SSZ\<close>, the
  form of the specification's examples. moment accepts many more forms; the query
  handlers below take the parser as a parameter, and this one instantiates it.
\<close>

definition days_in_month :: "int \<Rightarrow> int \<Rightarrow> int" where
  "days_in_month y m =
     (if m = 2 then (if y mod 400 = 0 \<or> (y mod 4 = 0 \<and> y mod 100 \<noteq> 0) then 29 else 28)
      else if m \<in> {4, 6, 9, 11} then 30 else 31)"

definition utc :: "int \<Rightarrow> int \<Rightarrow> int \<Rightarrow> int \<Rightarrow> int \<Rightarrow> int \<Rightarrow> instant" where
  "utc y m d h mi s = days_from_civil y m d * 86400000 + h * 3600000 + mi * 60000 + s * 1000"

definition parse_iso_utc :: "string \<Rightarrow> instant option" where
  "parse_iso_utc s =
     (case s of
        [y1, y2, y3, y4, a, m1, m2, b, d1, d2, c, h1, h2, e, i1, i2, f, s1, s2, z] \<Rightarrow>
          (if list_all is_digit [y1, y2, y3, y4, m1, m2, d1, d2, h1, h2, i1, i2, s1, s2]
              \<and> [a, b, c, e, f, z] = ''--T::Z''
           then (let y = parseInt [y1, y2, y3, y4]; m = parseInt [m1, m2]; d = parseInt [d1, d2];
                     h = parseInt [h1, h2]; mi = parseInt [i1, i2]; sec = parseInt [s1, s2]
                 in if 1 \<le> m \<and> m \<le> 12 \<and> 1 \<le> d \<and> d \<le> days_in_month y m
                       \<and> h \<le> 23 \<and> mi \<le> 59 \<and> sec \<le> 59
                    then Some (utc y m d h mi sec) else None)
           else None)
      | _ \<Rightarrow> None)"

section \<open>The cycle resolver\<close>

subsection \<open>Express variant (server.js, lines 141 to 176)\<close>

text \<open>
  \<^verbatim>\<open>Math.floor(hours / 6) * 6\<close>, then \<^verbatim>\<open>String(result).padStart(2, "0")\<close>.
\<close>

definition getClosestInterval :: "int \<Rightarrow> string" where
  "getClosestInterval hours = (let result = (hours div 6) * 6 in padStart 2 (toString result))"

text \<open>
  The local \<^verbatim>\<open>nearestTime\<close> of \<^verbatim>\<open>getNearestPublishedTime\<close> when the function returns.
  \<open>now\<close> is the value of \<^verbatim>\<open>moment()\<close>, the wall clock when the function runs;
  \<open>isoTimestamp\<close> is the instant \<^verbatim>\<open>moment(isoTimestamp).utc()\<close> of the argument.
\<close>

definition nearestTime :: "instant \<Rightarrow> instant \<Rightarrow> instant" where
  "nearestTime now isoTimestamp =
     (let time = isoTimestamp;
          nearestCycle = getClosestInterval (hour_of time);
          nearestTime = set_milliseconds 0 (set_seconds 0 (set_minutes 0
                          (set_hours (parseInt nearestCycle) time)))
      in if now - nearestTime < APPROX_PUBLISH_DELAY_MS
         then subtract_hours 6 nearestTime
         else nearestTime)"

record published_time =
  hour :: string
  date :: string
  timestamp :: string

definition getNearestPublishedTime :: "instant \<Rightarrow> instant \<Rightarrow> published_time" where
  "getNearestPublishedTime now isoTimestamp =
     (let nearestTime = nearestTime now isoTimestamp
      in \<lparr>hour = format_HH nearestTime,
          date = format_YYYYMMDD nearestTime,
          timestamp = format_YYYYMMDDHH nearestTime\<rparr>)"

subsection \<open>Http variant (server.js, lines 353 to 356 and 463 to 489)\<close>

text \<open>
  \<^verbatim>\<open>result < 10 ? `0${result.toString()}` : result\<close>. For 12 and 18 the result is the
  number itself; every use of it (\<^verbatim>\<open>parseInt\<close>, \<^verbatim>\<open>date + hour\<close>, a template string)
  converts it to its decimal string, which is what the model returns.
\<close>

definition getClosestInterval_http :: "int \<Rightarrow> string" where
  "getClosestInterval_http hours =
     (let result = (hours div 6) * 6
      in if result < 10 then ''0'' @ toString result else toString result)"

text \<open>
  \<^verbatim>\<open>moment.duration(APPROX_PUBLISH_DELAY_HOURS, "h")\<close> and its \<^verbatim>\<open>hours()\<close> and
  \<^verbatim>\<open>minutes()\<close> parts: 3 and 42.
\<close>

definition publishDelay_hours :: int where
  "publishDelay_hours = APPROX_PUBLISH_DELAY_MS div 3600000"

definition publishDelay_minutes :: int where
  "publishDelay_minutes = (APPROX_PUBLISH_DELAY_MS div 60000) mod 60"

text \<open>
  The local \<^verbatim>\<open>nearestCyclePublishTime\<close> when the function returns; \<open>ts\<close> is the
  instant \<^verbatim>\<open>moment(timestamp).utc()\<close> of the argument. Seconds and milliseconds are
  not reset: they stay those of the argument.
\<close>

definition nearestCyclePublishTime :: "instant \<Rightarrow> instant" where
  "nearestCyclePublishTime ts =
     (let time = ts;
          nearestCycle = getClosestInterval_http (hour_of time);
          nearestCyclePublishTime =
            set_hours (parseInt nearestCycle + publishDelay_hours)
              (set_minutes publishDelay_minutes ts)
      in if nearestCyclePublishTime > time
         then subtract_hours 6 nearestCyclePublishTime
         else nearestCyclePublishTime)"

record published_time_http = published_time +
  moment :: instant

definition getNearestPublishedTime_http :: "instant \<Rightarrow> published_time_http" where
  "getNearestPublishedTime_http ts =
     (let nearestCyclePublishTime = nearestCyclePublishTime ts;
          hour = getClosestInterval_http (hour_of nearestCyclePublishTime);
          date = format_YYYYMMDD nearestCyclePublishTime
      in \<lparr>hour = hour, date = date, timestamp = date @ hour,
          moment = nearestCyclePublishTime\<rparr>)"

text \<open>
  The start of the six-hour bucket that contains an instant. The program has no
  function of this name: it is the length-of-cycle arithmetic that the lemmas below show
  both resolvers to compute, and the vocabulary in which their properties are stated.
\<close>

definition bucket_start :: "instant \<Rightarrow> instant" where
  "bucket_start t = t - t mod SIX_HOURS_MS"

section \<open>Files\<close>

text \<open>
  The two data directories are flat, so the file system is a list of (path, content)
  pairs. Paths are the relative paths the program builds, for example
  \<^verbatim>\<open>json/2024010100.json\<close>.
\<close>

type_synonym filesystem = "(string \<times> string) list"

definition existsSync :: "string \<Rightarrow> filesystem \<Rightarrow> bool" where
  "existsSync path fs = (path \<in> fst ` set fs)"

definition readFile :: "string \<Rightarrow> filesystem \<Rightarrow> string option" where
  "readFile path fs = map_of fs path"

definition unlinkSync :: "string \<Rightarrow> filesystem \<Rightarrow> filesystem" where
  "unlinkSync path fs = filter (\<lambda>e. fst e \<noteq> path) fs"

definition writeFile :: "string \<Rightarrow> string \<Rightarrow> filesystem \<Rightarrow> filesystem" where
  "writeFile path content fs = (path, content) # filter (\<lambda>e. fst e \<noteq> path) fs"

text \<open>The name of a path inside a directory: \<open>Some name\<close> for \<^verbatim>\<open>dir/name\<close>.\<close>

definition entry_name :: "string \<Rightarrow> string \<Rightarrow> string option" where
  "entry_name dir path =
     (let n = length dir + 1; name = drop n path
      in if take n path = dir @ ''/'' \<and> name \<noteq> [] \<and> CHR ''/'' \<notin> set name
         then Some name else None)"

definition readdirSync :: "string \<Rightarrow> filesystem \<Rightarrow> string list" where
  "readdirSync dir fs = List.map_filter (\<lambda>e. entry_name dir (fst e)) fs"

text \<open>
  The shell command \<^verbatim>\<open>rm grib/*\<close>: removes every entry of the directory whose name does
  not start with a dot.
\<close>

definition rm_all :: "string \<Rightarrow> filesystem \<Rightarrow> filesystem" where
  "rm_all dir fs =
     filter (\<lambda>e. case entry_name dir (fst e) of
                    None \<Rightarrow> True
                  | Some name \<Rightarrow> hd name = CHR ''.'') fs"

definition getJsonFilePath :: "string \<Rightarrow> string" where
  "getJsonFilePath ts = JSON_DATA_DIR @ ''/'' @ ts @ ''.json''"

definition getGribFilePath :: "string \<Rightarrow> string" where
  "getGribFilePath ts = GRIB_DATA_DIR @ ''/'' @ ts @ ''.f000''"

section \<open>The server state and the asynchronous operations\<close>

text \<open>One constructor for each call of \<^verbatim>\<open>log\<close> in the program.\<close>

datatype log_entry =
    TargetTime instant string
  | DataExists string
  | DueToBeFetched string
  | Converting string
  | ConversionError string
  | Converted string string
  | Fetching string
  | NotOnServer string
  | Fetched string
  | ErrorCode int
  | RequestFailed string
  | Caught string

text \<open>
  Node runs the program on one thread: a function runs to its end, and what it started
  (an https request, a child process) completes later, in a callback. An operation that
  has been started and has not completed is an element of \<open>in_flight\<close>; it carries the
  variables its callbacks close over.
\<close>

datatype pending =
    HttpsGet string string string string
  | ExecConverter string string

text \<open>
  \<open>fetch_calls\<close> and \<open>convert_calls\<close> record every invocation of the two
  collaborators: the (date, hour) of each \<^verbatim>\<open>https.get\<close> and the (grib path, json path) of
  each run of the converter.
\<close>

record server =
  files :: filesystem
  logged :: "log_entry list"
  in_flight :: "pending list"
  fetch_calls :: "(string \<times> string) list"
  convert_calls :: "(string \<times> string) list"

definition log :: "log_entry \<Rightarrow> server \<Rightarrow> server" where
  "log entry s = s\<lparr>logged := logged s @ [entry]\<rparr>"

text \<open>
  \<^verbatim>\<open>convertGribToJson\<close> up to its return: it logs and starts the converter with
  \<^verbatim>\<open>--output jsonFilePath\<close>.
\<close>

definition convertGribToJson :: "string \<Rightarrow> string \<Rightarrow> server \<Rightarrow> server" where
  "convertGribToJson gribFilePath jsonFilePath s =
     (let s1 = log (Converting gribFilePath) s
      in s1\<lparr>in_flight := in_flight s1 @ [ExecConverter gribFilePath jsonFilePath],
            convert_calls := convert_calls s1 @ [(gribFilePath, jsonFilePath)]\<rparr>)"

text \<open>
  The command line of \<^verbatim>\<open>exec\<close> in \<^verbatim>\<open>convertGribToJson\<close>: the run that
  \<open>convert_calls\<close> records as (grib path, json path).
\<close>

definition GRIB2JSON_BIN_PATH :: string where
  "GRIB2JSON_BIN_PATH = ''converter/bin/grib2json''"

definition converter_command :: "string \<Rightarrow> string \<Rightarrow> string" where
  "converter_command gribFilePath jsonFilePath =
     GRIB2JSON_BIN_PATH @ '' --data --output '' @ jsonFilePath @ '' --names --compact ''
       @ gribFilePath"

text \<open>
  How the converter process ends. The converter is an external tool: when it exits
  without error it has written its output at the path it was given; when it fails it is
  taken to have written nothing.
\<close>

datatype convert_result = ConverterOk string | ConverterError string

text \<open>
  The callback of \<^verbatim>\<open>exec\<close> in \<^verbatim>\<open>convertGribToJson\<close>. On an error it logs and rejects a
  promise that nobody listens to. Without error it runs \<^verbatim>\<open>rm grib/*\<close> (taken to
  complete at once) and logs.
\<close>

definition convertGribToJson_callback ::
  "string \<Rightarrow> string \<Rightarrow> convert_result \<Rightarrow> server \<Rightarrow> server" where
  "convertGribToJson_callback gribFilePath jsonFilePath result s =
     (case result of
        ConverterError error \<Rightarrow> log (ConversionError error) s
      | ConverterOk content \<Rightarrow>
          (let s1 = s\<lparr>files := writeFile jsonFilePath content (files s)\<rparr>;
               s2 = s1\<lparr>files := rm_all GRIB_DATA_DIR (files s1)\<rparr>
           in log (Converted gribFilePath jsonFilePath) s2))"

text \<open>
  \<^verbatim>\<open>getGribData(date, hour)\<close> up to its return: it logs and sends the request. The
  last two arguments are not parameters of the JavaScript function: they are the variables of the
  \<^verbatim>\<open>then\<close> callback that \<^verbatim>\<open>maybeFetchGribData\<close> attaches to the returned promise.
\<close>

definition getGribData :: "string \<Rightarrow> string \<Rightarrow> string \<Rightarrow> string \<Rightarrow> server \<Rightarrow> server" where
  "getGribData d h thenGrib thenJson s =
     (let ts = d @ h;
          s1 = log (Fetching ts) s
      in s1\<lparr>in_flight := in_flight s1 @ [HttpsGet d h thenGrib thenJson],
            fetch_calls := fetch_calls s1 @ [(d, h)]\<rparr>)"

datatype fetch_response =
    Status404
  | Status200 string
  | StatusOther int
  | RequestError string

datatype promise = Pending | Resolved string | Rejected string

text \<open>
  The response callback of \<^verbatim>\<open>https.get\<close> in \<^verbatim>\<open>getGribData\<close>, with the state of the
  promise afterwards. On 404 it only logs: the promise is neither resolved nor rejected.
  On 200 the body is written to the grib path (the write is taken to complete at once)
  and the promise is resolved.
\<close>

definition getGribData_response ::
  "string \<Rightarrow> string \<Rightarrow> fetch_response \<Rightarrow> server \<Rightarrow> promise \<times> server" where
  "getGribData_response d h response s =
     (let ts = d @ h;
          gribFilePath = getGribFilePath ts
      in case response of
           Status404 \<Rightarrow> (Pending, log (NotOnServer ts) s)
         | Status200 buffer \<Rightarrow>
             (let s1 = log (Fetched ts) s
              in (Resolved gribFilePath,
                  s1\<lparr>files := writeFile gribFilePath buffer (files s1)\<rparr>))
         | StatusOther code \<Rightarrow> (Rejected (toString code), log (ErrorCode code) s)
         | RequestError message \<Rightarrow> (Rejected message, log (RequestFailed message) s))"

text \<open>
  \<^verbatim>\<open>.then(() => { convertGribToJson(gribFilePath, jsonFilePath); }).catch((err) => log(err))\<close>
  in \<^verbatim>\<open>maybeFetchGribData\<close>: what runs once the promise of \<^verbatim>\<open>getGribData\<close> is in the
  given state. Nothing runs while it is pending.
\<close>

definition on_settled :: "string \<Rightarrow> string \<Rightarrow> promise \<Rightarrow> server \<Rightarrow> server" where
  "on_settled gribFilePath jsonFilePath p s =
     (case p of
        Pending \<Rightarrow> s
      | Resolved _ \<Rightarrow> convertGribToJson gribFilePath jsonFilePath s
      | Rejected err \<Rightarrow> log (Caught err) s)"

datatype event = Response fetch_response | ConverterExit convert_result

text \<open>
  One turn of the event loop: the in-flight operation at index \<open>i\<close> completes with the
  given event and its callbacks run.
\<close>

definition complete :: "nat \<Rightarrow> event \<Rightarrow> server \<Rightarrow> server" where
  "complete i ev s =
     (if i < length (in_flight s) then
        (let s0 = s\<lparr>in_flight := take i (in_flight s) @ drop (Suc i) (in_flight s)\<rparr>
         in case (in_flight s ! i, ev) of
              (HttpsGet d h thenGrib thenJson, Response r) \<Rightarrow>
                (case getGribData_response d h r s0 of
                   (p, s1) \<Rightarrow> on_settled thenGrib thenJson p s1)
            | (ExecConverter gribFilePath jsonFilePath, ConverterExit r) \<Rightarrow>
                convertGribToJson_callback gribFilePath jsonFilePath r s0
            | _ \<Rightarrow> s)
      else s)"

section \<open>The pipeline, the eviction and the scheduler\<close>

text \<open>
  These functions are the same in both variants but for the text of the log lines; they
  call \<^verbatim>\<open>getNearestPublishedTime\<close>, which differs, so the model takes the resolver as the
  parameter \<open>resolve\<close>: \<open>getNearestPublishedTime now\<close> in the express variant,
  \<open>getNearestPublishedTime_http\<close> in the http variant. \<open>time\<close> is the argument, by
  default \<^verbatim>\<open>moment.utc()\<close>. One value \<open>now\<close> stands for every reading of the clock
  during one run of a function, which takes no measurable time.
\<close>

definition maybeFetchGribData ::
  "(instant \<Rightarrow> 'a published_time_scheme) \<Rightarrow> instant \<Rightarrow> server \<Rightarrow> server" where
  "maybeFetchGribData resolve time s =
     (let nearestPublishedTime = resolve time;
          jsonFilePath = getJsonFilePath (timestamp nearestPublishedTime);
          gribFilePath = getGribFilePath (timestamp nearestPublishedTime);
          s1 = log (TargetTime time (timestamp nearestPublishedTime)) s
      in if existsSync jsonFilePath (files s1)
         then log (DataExists (timestamp nearestPublishedTime)) s1
         else (let s2 = log (DueToBeFetched (timestamp nearestPublishedTime)) s1
               in if existsSync gribFilePath (files s2)
                  then convertGribToJson gribFilePath jsonFilePath s2
                  else getGribData (date nearestPublishedTime) (hour nearestPublishedTime)
                         gribFilePath jsonFilePath s2))"

definition getIncrementalArray :: "nat \<Rightarrow> int \<Rightarrow> int list" where
  "getIncrementalArray amount increment = map (\<lambda>i. int i * increment) [0..<amount]"

definition lastDataCyclesFiles ::
  "(instant \<Rightarrow> 'a published_time_scheme) \<Rightarrow> instant \<Rightarrow> string list" where
  "lastDataCyclesFiles resolve now =
     map (\<lambda>hours. getJsonFilePath (timestamp (resolve (subtract_hours hours now))))
       (getIncrementalArray KEEP_LAST_N_DATASETS 6)"

definition deleteOlderData ::
  "(instant \<Rightarrow> 'a published_time_scheme) \<Rightarrow> instant \<Rightarrow> server \<Rightarrow> server" where
  "deleteOlderData resolve now s =
     (let lastDataCyclesFiles = lastDataCyclesFiles resolve now
      in fold (\<lambda>item s'.
                 (let path = JSON_DATA_DIR @ ''/'' @ item
                  in if path \<notin> set lastDataCyclesFiles
                     then s'\<lparr>files := unlinkSync path (files s')\<rparr>
                     else s'))
           (readdirSync JSON_DATA_DIR (files s)) s)"

text \<open>
  The initial fetch: \<^verbatim>\<open>getIncrementalArray().forEach(...)\<close>. Creating the two
  directories and the log file, which comes before it, changes no file of the model.
\<close>

definition init :: "(instant \<Rightarrow> 'a published_time_scheme) \<Rightarrow> instant \<Rightarrow> server \<Rightarrow> server" where
  "init resolve now s =
     fold (\<lambda>hours. maybeFetchGribData resolve (subtract_hours hours now))
       (getIncrementalArray KEEP_LAST_N_DATASETS 6) s"

text \<open>The body of the \<^verbatim>\<open>setInterval\<close> callback, run every ten minutes.\<close>

definition tick :: "(instant \<Rightarrow> 'a published_time_scheme) \<Rightarrow> instant \<Rightarrow> server \<Rightarrow> server" where
  "tick resolve now s = deleteOlderData resolve now (maybeFetchGribData resolve now s)"

section \<open>The query handlers\<close>

datatype 'j body =
    ErrorBody string
  | MessageBody string
  | DataBody 'j string
  | FileBody string

record 'j response =
  status :: nat
  body :: "'j body"

text \<open>
  The handler of \<^verbatim>\<open>/GetWindData\<close> in the express variant. \<open>parse\<close> is moment's strict
  ISO 8601 parser (\<open>None\<close> when \<^verbatim>\<open>isValid()\<close> is false), \<open>JSON_parse\<close> is \<^verbatim>\<open>JSON.parse\<close>
  (\<open>None\<close> when it throws), the query parameter is \<open>None\<close> when the request has none.
  The result is \<open>None\<close> when the handler sends no response: \<^verbatim>\<open>JSON.parse\<close> threw inside
  the \<^verbatim>\<open>readFile\<close> callback.
\<close>

definition GetWindData ::
  "(string \<Rightarrow> instant option) \<Rightarrow> (string \<Rightarrow> 'j option) \<Rightarrow>
   (instant \<Rightarrow> 'a published_time_scheme) \<Rightarrow> string option \<Rightarrow> server \<Rightarrow> 'j response option" where
  "GetWindData parse JSON_parse resolve isoTimestamp s =
     (case Option.bind isoTimestamp parse of
        None \<Rightarrow>
          Some \<lparr>status = 400,
                body = ErrorBody
                  ''Provide a valid isoTimestamp query parameter to get wind forecast data.''\<rparr>
      | Some t \<Rightarrow>
          (let nearestPublishedTime = resolve t;
               jsonFilePath = getJsonFilePath (timestamp nearestPublishedTime)
           in if \<not> existsSync jsonFilePath (files s)
              then Some \<lparr>status = 404,
                         body = ErrorBody ''There's no data for the specified time.''\<rparr>
              else (case readFile jsonFilePath (files s) of
                      None \<Rightarrow> Some \<lparr>status = 400, body = ErrorBody ''Internal error.''\<rparr>
                    | Some data \<Rightarrow>
                        (case JSON_parse data of
                           None \<Rightarrow> None
                         | Some j \<Rightarrow>
                             Some \<lparr>status = 200,
                                   body = DataBody j (timestamp nearestPublishedTime)\<rparr>))))"

text \<open>
  The request handler of the http variant: \<^verbatim>\<open>res.writeHead(200, ...)\<close> comes first, so
  every response has status 200. When the file exists it is piped to the response as
  it is.
\<close>

definition http_handler ::
  "(string \<Rightarrow> instant option) \<Rightarrow> (instant \<Rightarrow> 'a published_time_scheme) \<Rightarrow>
   string option \<Rightarrow> server \<Rightarrow> 'j response option" where
  "http_handler parse resolve isoTimestamp s =
     (case Option.bind isoTimestamp parse of
        None \<Rightarrow>
          Some \<lparr>status = 200,
                body = MessageBody
                  ''Provide a valid isoTimestamp query parameter to get wind forecast data.''\<rparr>
      | Some t \<Rightarrow>
          (let nearestPublishedTime = resolve t;
               jsonFilePath = getJsonFilePath (timestamp nearestPublishedTime)
           in if \<not> existsSync jsonFilePath (files s)
              then Some \<lparr>status = 200,
                         body = ErrorBody ''There's no data for the specified time.''\<rparr>
              else map_option (\<lambda>data. \<lparr>status = 200, body = FileBody data\<rparr>)
                     (readFile jsonFilePath (files s))))"

definition empty_server :: server where
  "empty_server = \<lparr>files = [], logged = [], in_flight = [], fetch_calls = [], convert_calls = []\<rparr>"

text \<open>
  The \<^verbatim>\<open>forEach\<close> loop of \<^verbatim>\<open>deleteOlderData\<close> on its own, with the list of the paths
  to keep as a parameter: \<open>evict_step\<close> is the body of the loop, \<open>evictExcept\<close> the loop
  over the entries of the json directory. Lemma \<open>deleteOlderData_evictExcept\<close> shows that
  \<^verbatim>\<open>deleteOlderData\<close> is this loop for the paths of the five cycles it computes.
\<close>

definition evict_step :: "string list \<Rightarrow> string \<Rightarrow> server \<Rightarrow> server" where
  "evict_step keep item s' =
     (let path = JSON_DATA_DIR @ ''/'' @ item
      in if path \<notin> set keep then s'\<lparr>files := unlinkSync path (files s')\<rparr> else s')"

definition evictExcept :: "string list \<Rightarrow> server \<Rightarrow> server" where
  "evictExcept keep s = fold (evict_step keep) (readdirSync JSON_DATA_DIR (files s)) s"

section \<open>Example states\<close>

text \<open>
  A server whose cache holds the artifact of cycle 2024010100, a server that holds the
  raw data of that cycle while the converter runs on it, and a server that holds the raw
  data with nothing in flight.
\<close>

definition warm_server :: server where
  "warm_server = empty_server\<lparr>files := [(''json/2024010100.json'', ''[]'')]\<rparr>"

definition converting_server :: server where
  "converting_server =
     empty_server\<lparr>files := [(''grib/2024010100.f000'', ''GRIB'')],
                  in_flight := [ExecConverter ''grib/2024010100.f000'' ''json/2024010100.json'']\<rparr>"

definition raw_server :: server where
  "raw_server = empty_server\<lparr>files := [(''grib/2024010100.f000'', ''GRIB'')]\<rparr>"

section \<open>Arithmetic of the UTC fields\<close>

lemma mod6h: "(t::int) mod 21600000 = 3600000 * (t div 3600000 mod 6) + 60000 * (t div 60000 mod 60) + 1000 * (t div 1000 mod 60) + t mod 1000"
proof -
  have a: "t mod 21600000 = 3600000 * (t div 3600000 mod 6) + t mod 3600000"
    using zmod_zmult2_eq [of 6 t 3600000] by simp
  have b: "t mod 3600000 = 60000 * (t div 60000 mod 60) + t mod 60000"
    using zmod_zmult2_eq [of 60 t 60000] by simp
  have c: "t mod 60000 = 1000 * (t div 1000 mod 60) + t mod 1000"
    using zmod_zmult2_eq [of 60 t 1000] by simp
  show ?thesis unfolding a b c by (simp only: add.assoc)
qed

lemma hour_of_range: "0 \<le> hour_of t \<and> hour_of t < 24"
  by (simp add: hour_of_def)

lemma hour_bucket: "(hour_of t div 6) * 6 = hour_of t - (t div 3600000) mod 6"
proof -
  have "hour_of t mod 6 = (t div 3600000) mod 6"
    unfolding hour_of_def using mod_mod_cancel [of 6 24 "t div 3600000"] by simp
  moreover have "(hour_of t div 6) * 6 = hour_of t - hour_of t mod 6"
    by (simp add: minus_mod_eq_div_mult)
  ultimately show ?thesis by simp
qed

lemma interval_cases:
  assumes "0 \<le> h" "h < (24::int)"
  shows "(h div 6) * 6 \<in> {0, 6, 12, 18}"
proof -
  have "0 \<le> h div 6" "h div 6 < 4" using assms by auto
  then have "h div 6 \<in> {0, 1, 2, 3}" by auto
  then show ?thesis by auto
qed

lemma digits_small: "digits 0 = ''0''" "digits 6 = ''6''" "digits 12 = ''12''" "digits 18 = ''18''"
  by (simp_all add: digits.simps)

lemma parseInt_small: "parseInt ''00'' = 0" "parseInt ''06'' = 6" "parseInt ''12'' = 12" "parseInt ''18'' = 18"
  by (simp_all add: parseInt_def is_digit_def digit_value_def)

lemma getClosestInterval_cases:
  assumes "0 \<le> h" "h < 24"
  shows "getClosestInterval h \<in> {''00'', ''06'', ''12'', ''18''}"
    and "parseInt (getClosestInterval h) = (h div 6) * 6"
    and "getClosestInterval_http h = getClosestInterval h"
  using interval_cases [OF assms]
  by (auto simp: getClosestInterval_def getClosestInterval_http_def Let_def toString_def padStart_def digits_small parseInt_small)


lemma minute_of_shift: "minute_of (t + k * 3600000) = minute_of t"
proof -
  have "t + k * 3600000 = t + (k * 60) * 60000" by simp
  then have "(t + k * 3600000) div 60000 = k * 60 + t div 60000"
    by (simp only: div_mult_self1 [of 60000 t "k * 60"])
  then show ?thesis
    unfolding minute_of_def by (simp only: mod_mult_self3)
qed

lemma second_of_shift: "second_of (t + k * 60000) = second_of t"
proof -
  have "t + k * 60000 = t + (k * 60) * 1000" by simp
  then have "(t + k * 60000) div 1000 = k * 60 + t div 1000"
    by (simp only: div_mult_self1 [of 1000 t "k * 60"])
  then show ?thesis
    unfolding second_of_def by (simp only: mod_mult_self3)
qed

lemma millisecond_of_shift: "millisecond_of (t + k * 1000) = millisecond_of t"
  unfolding millisecond_of_def by (simp only: mod_mult_self1)

lemma set_hours_interval:
  "set_hours (parseInt (getClosestInterval (hour_of t))) t = t - (t div 3600000 mod 6) * 3600000"
proof -
  have "parseInt (getClosestInterval (hour_of t)) = hour_of t - (t div 3600000) mod 6"
    using getClosestInterval_cases(2) [of "hour_of t"] hour_of_range [of t] hour_bucket [of t]
    by simp
  then show ?thesis by (simp add: set_hours_def algebra_simps)
qed

lemma truncate_to_bucket:
  "set_milliseconds 0 (set_seconds 0 (set_minutes 0
     (set_hours (parseInt (getClosestInterval (hour_of t))) t))) = bucket_start t"
proof -
  define a where "a = t div 3600000 mod 6"
  define m where "m = t div 60000 mod 60"
  define s where "s = t div 1000 mod 60"
  define t1 where "t1 = t - a * 3600000"
  define t2 where "t2 = t1 - m * 60000"
  define t3 where "t3 = t2 - s * 1000"
  have h: "set_hours (parseInt (getClosestInterval (hour_of t))) t = t1"
    unfolding t1_def a_def by (rule set_hours_interval)
  have "t1 = t + (- a) * 3600000" by (simp add: t1_def)
  then have "minute_of t1 = m"
    by (simp only: minute_of_shift) (simp add: minute_of_def m_def)
  then have m: "set_minutes 0 t1 = t2"
    by (simp add: set_minutes_def t2_def)
  have "t2 = t + (- a * 60 - m) * 60000" by (simp add: t2_def t1_def algebra_simps)
  then have "second_of t2 = s"
    by (simp only: second_of_shift) (simp add: second_of_def s_def)
  then have s: "set_seconds 0 t2 = t3"
    by (simp add: set_seconds_def t3_def)
  have "t3 = t + (- a * 3600 - m * 60 - s) * 1000"
    by (simp add: t3_def t2_def t1_def algebra_simps)
  then have "millisecond_of t3 = t mod 1000"
    by (simp only: millisecond_of_shift) (simp add: millisecond_of_def)
  then have ms: "set_milliseconds 0 t3 = t3 - t mod 1000"
    by (simp add: set_milliseconds_def)
  have "t mod 21600000 = 3600000 * a + 60000 * m + 1000 * s + t mod 1000"
    unfolding a_def m_def s_def by (rule mod6h)
  then have "t3 - t mod 1000 = bucket_start t"
    by (simp add: t3_def t2_def t1_def bucket_start_def SIX_HOURS_MS_def)
  then show ?thesis by (simp only: h m s ms)
qed

lemma nearestTime_eq:
  "nearestTime now t =
     (if now - bucket_start t < APPROX_PUBLISH_DELAY_MS
      then bucket_start t - SIX_HOURS_MS else bucket_start t)"
  by (simp add: nearestTime_def Let_def truncate_to_bucket subtract_hours_def SIX_HOURS_MS_def)


lemma set_minutes_keeps_hour:
  assumes "0 \<le> k" "k < 60"
  shows "set_minutes k t div 3600000 = t div 3600000"
proof -
  have b: "t mod 3600000 = 60000 * (t div 60000 mod 60) + t mod 60000"
    using zmod_zmult2_eq [of 60 t 60000] by simp
  have "t = 3600000 * (t div 3600000) + t mod 3600000" by simp
  then have "set_minutes k t = (k * 60000 + t mod 60000) + (t div 3600000) * 3600000"
    unfolding set_minutes_def minute_of_def using b by linarith
  moreover have "0 \<le> k * 60000 + t mod 60000" using assms by simp
  moreover have "k * 60000 + t mod 60000 < 3600000"
  proof -
    have "t mod 60000 < 60000" by simp
    moreover have "k * 60000 \<le> 59 * 60000" using assms by simp
    ultimately show ?thesis by linarith
  qed
  ultimately show ?thesis
    by (simp only: div_mult_self1 [of 3600000 "k * 60000 + t mod 60000" "t div 3600000"])
qed

lemma publishDelay_parts: "publishDelay_hours = 3" "publishDelay_minutes = 42"
  by (simp_all add: publishDelay_hours_def publishDelay_minutes_def APPROX_PUBLISH_DELAY_MS_def)

lemma unstepped_publish_time:
  "set_hours (parseInt (getClosestInterval_http (hour_of t)) + publishDelay_hours)
     (set_minutes publishDelay_minutes t)
   = bucket_start t + APPROX_PUBLISH_DELAY_MS + t mod 60000"
proof -
  define a where "a = t div 3600000 mod 6"
  define m where "m = t div 60000 mod 60"
  define u where "u = set_minutes 42 t"
  have hu: "hour_of u = hour_of t"
    unfolding hour_of_def u_def by (simp add: set_minutes_keeps_hour)
  have iv: "parseInt (getClosestInterval_http (hour_of t)) = hour_of t - a"
    using getClosestInterval_cases(2,3) [of "hour_of t"] hour_of_range [of t] hour_bucket [of t]
    by (simp add: a_def)
  have s1: "set_hours (hour_of t - a + 3) u = u - a * 3600000 + 10800000"
    unfolding set_hours_def hu by (simp only: algebra_simps)
  have s2: "u = t - m * 60000 + 2520000"
    by (simp add: u_def set_minutes_def minute_of_def m_def)
  have c: "t mod 60000 = 1000 * (t div 1000 mod 60) + t mod 1000"
    using zmod_zmult2_eq [of 60 t 1000] by simp
  have e: "t mod 21600000 = 3600000 * a + 60000 * m + t mod 60000"
    unfolding a_def m_def using mod6h [of t] c by linarith
  have "u - a * 3600000 + 10800000 = bucket_start t + 13320000 + t mod 60000"
    unfolding s2 bucket_start_def SIX_HOURS_MS_def using e by linarith
  then have "set_hours (hour_of t - a + 3) u = bucket_start t + 13320000 + t mod 60000"
    by (simp only: s1)
  then show ?thesis
    unfolding iv publishDelay_parts u_def APPROX_PUBLISH_DELAY_MS_def .
qed

lemma nearestCyclePublishTime_eq:
  "nearestCyclePublishTime t =
     (if bucket_start t + APPROX_PUBLISH_DELAY_MS + t mod 60000 > t
      then bucket_start t + APPROX_PUBLISH_DELAY_MS + t mod 60000 - SIX_HOURS_MS
      else bucket_start t + APPROX_PUBLISH_DELAY_MS + t mod 60000)"
  by (simp add: nearestCyclePublishTime_def Let_def unstepped_publish_time subtract_hours_def
      SIX_HOURS_MS_def)

lemma bucket_start_le: "bucket_start t \<le> t"
  by (simp add: bucket_start_def SIX_HOURS_MS_def)

lemma bucket_start_shift: "bucket_start (bucket_start t + k * SIX_HOURS_MS + r) = bucket_start t + k * SIX_HOURS_MS + bucket_start r"
proof -
  have "bucket_start t = (t div SIX_HOURS_MS) * SIX_HOURS_MS"
    by (simp add: bucket_start_def minus_mod_eq_div_mult)
  then have "bucket_start t + k * SIX_HOURS_MS + r = r + (t div SIX_HOURS_MS + k) * SIX_HOURS_MS"
    by (simp add: algebra_simps)
  then have "(bucket_start t + k * SIX_HOURS_MS + r) mod SIX_HOURS_MS = r mod SIX_HOURS_MS"
    by (simp only: mod_mult_self1)
  then show ?thesis by (simp add: bucket_start_def)
qed

lemma publish_time_bucket:
  "bucket_start (nearestCyclePublishTime t) + APPROX_PUBLISH_DELAY_MS + t mod 60000
     = nearestCyclePublishTime t"
proof -
  have r: "0 \<le> APPROX_PUBLISH_DELAY_MS + t mod 60000" "APPROX_PUBLISH_DELAY_MS + t mod 60000 < SIX_HOURS_MS"
  proof -
    have "0 \<le> t mod 60000" "t mod 60000 < 60000" by simp_all
    then show "0 \<le> APPROX_PUBLISH_DELAY_MS + t mod 60000" "APPROX_PUBLISH_DELAY_MS + t mod 60000 < SIX_HOURS_MS"
      by (simp_all add: APPROX_PUBLISH_DELAY_MS_def SIX_HOURS_MS_def)
  qed
  then have z: "bucket_start (APPROX_PUBLISH_DELAY_MS + t mod 60000) = 0"
    by (simp add: bucket_start_def)
  have a: "bucket_start (bucket_start t + APPROX_PUBLISH_DELAY_MS + t mod 60000) = bucket_start t"
    using bucket_start_shift [of t 0 "APPROX_PUBLISH_DELAY_MS + t mod 60000"] z
    by (simp add: add.assoc)
  have b: "bucket_start (bucket_start t + APPROX_PUBLISH_DELAY_MS + t mod 60000 - SIX_HOURS_MS)
             = bucket_start t - SIX_HOURS_MS"
    using bucket_start_shift [of t "- 1" "APPROX_PUBLISH_DELAY_MS + t mod 60000"] z
    by (simp add: algebra_simps)
  show ?thesis
    unfolding nearestCyclePublishTime_eq using a b by simp
qed

lemma nearestCyclePublishTime_le: "nearestCyclePublishTime t \<le> t"
proof -
  have "t mod 60000 < 60000" by simp
  then have "bucket_start t + APPROX_PUBLISH_DELAY_MS + t mod 60000 - SIX_HOURS_MS < bucket_start t"
    by (simp add: APPROX_PUBLISH_DELAY_MS_def SIX_HOURS_MS_def)
  then show ?thesis
    unfolding nearestCyclePublishTime_eq using bucket_start_le [of t] by simp
qed


lemma bucket_start_same_day: "bucket_start p div 86400000 = p div 86400000"
proof -
  define e where "e = p mod 86400000"
  have "(21600000::int) dvd 86400000" by simp
  then have "p mod 86400000 mod 21600000 = p mod 21600000"
    by (rule mod_mod_cancel)
  then have m: "p mod 21600000 = e mod 21600000" by (simp add: e_def)
  have "p = (p div 86400000) * 86400000 + e" by (simp add: e_def)
  then have "bucket_start p = (e - e mod 21600000) + (p div 86400000) * 86400000"
    unfolding bucket_start_def SIX_HOURS_MS_def m by linarith
  moreover have "0 \<le> e - e mod 21600000"
  proof -
    have "0 \<le> e" by (simp add: e_def)
    then have "e mod 21600000 \<le> e" by (rule zmod_le_nonneg_dividend)
    then show ?thesis by simp
  qed
  moreover have "e - e mod 21600000 < 86400000"
  proof -
    have "e < 86400000" by (simp add: e_def)
    moreover have "0 \<le> e mod 21600000" by simp
    ultimately show ?thesis by linarith
  qed
  ultimately show ?thesis
    by (simp only: div_mult_self1 [of 86400000 "e - e mod 21600000" "p div 86400000"])
qed

lemma hour_of_bucket_start: "hour_of (bucket_start p) = (hour_of p div 6) * 6"
proof -
  define H where "H = p div 3600000"
  define q where "q = H div 6"
  have q: "p div 21600000 = q"
    unfolding q_def H_def using zdiv_zmult2_eq [of 6 p 3600000] by simp
  have "bucket_start p = (q * 6) * 3600000"
    unfolding bucket_start_def SIX_HOURS_MS_def q [symmetric]
    by (simp add: minus_mod_eq_div_mult)
  then have "bucket_start p div 3600000 = q * 6" by simp
  then have l: "hour_of (bucket_start p) = (q * 6) mod 24" by (simp add: hour_of_def)
  have "(6 * q) mod (6 * 4) = 6 * (q mod 4)" by (simp only: mult_mod_right)
  then have l2: "(q * 6) mod 24 = 6 * (q mod 4)" by (simp add: mult.commute)
  have "H mod (6 * 4) = 6 * (H div 6 mod 4) + H mod 6"
    by (rule zmod_zmult2_eq) simp
  then have r: "hour_of p = 6 * (q mod 4) + H mod 6"
    by (simp add: hour_of_def H_def q_def)
  have "(hour_of p div 6) * 6 = hour_of p - H mod 6"
    unfolding H_def by (rule hour_bucket)
  then show ?thesis using l l2 r by simp
qed

lemma format_YYYYMMDD_bucket_start: "format_YYYYMMDD (bucket_start p) = format_YYYYMMDD p"
  by (simp add: format_YYYYMMDD_def year_of_def month_of_def day_of_def bucket_start_same_day)

lemma zeroFill_small:
  "zeroFill 2 0 = ''00''" "zeroFill 2 6 = ''06''" "zeroFill 2 12 = ''12''" "zeroFill 2 18 = ''18''"
  by (simp_all add: zeroFill_def padStart_def digits_small)

lemma getClosestInterval_zeroFill:
  assumes "0 \<le> h" "h < 24"
  shows "getClosestInterval_http h = zeroFill 2 ((h div 6) * 6)"
  using interval_cases [OF assms]
  by (auto simp: getClosestInterval_http_def Let_def toString_def digits_small zeroFill_small)

lemma format_HH_bucket_start: "format_HH (bucket_start p) = getClosestInterval_http (hour_of p)"
  using getClosestInterval_zeroFill [of "hour_of p"] hour_of_range [of p]
  by (simp add: format_HH_def hour_of_bucket_start)

lemma timestamp_http:
  "timestamp (getNearestPublishedTime_http t)
     = format_YYYYMMDDHH (bucket_start (nearestCyclePublishTime t))"
  by (simp add: getNearestPublishedTime_http_def Let_def format_YYYYMMDDHH_def
      format_YYYYMMDD_bucket_start format_HH_bucket_start)

section \<open>The resolver on the instants of the examples\<close>

lemma parse_examples:
  "parse_iso_utc ''2024-01-01T05:00:00Z'' = Some 1704085200000"
  "parse_iso_utc ''2024-01-01T02:00:00Z'' = Some 1704074400000"
  by (simp_all add: parse_iso_utc_def is_digit_def parseInt_def digit_value_def
      days_in_month_def utc_def days_from_civil_def)

lemma format_examples:
  "format_YYYYMMDDHH 1704067200000 = ''2024010100''"
  "format_YYYYMMDDHH 1704045600000 = ''2023123118''"
  by code_simp+

lemma bucket_examples:
  "bucket_start 1704085200000 = 1704067200000"
  "bucket_start 1704074400000 = 1704067200000"
  by (simp_all add: bucket_start_def SIX_HOURS_MS_def)

lemma format_cycles:
  "format_YYYYMMDD 1704067200000 = ''20240101''" "format_HH 1704067200000 = ''00''"
  "format_YYYYMMDD 1704045600000 = ''20231231''" "format_HH 1704045600000 = ''18''"
  "format_YYYYMMDD 1704024000000 = ''20231231''" "format_HH 1704024000000 = ''12''"
  "format_YYYYMMDD 1704002400000 = ''20231231''" "format_HH 1704002400000 = ''06''"
  "format_YYYYMMDD 1703980800000 = ''20231231''" "format_HH 1703980800000 = ''00''"
  by code_simp+

lemma incremental_array: "getIncrementalArray KEEP_LAST_N_DATASETS 6 = [0, 6, 12, 18, 24]"
proof -
  have "[0..<5] = [0, 1, 2, 3, 4]" by code_simp
  then show ?thesis
    by (simp add: getIncrementalArray_def KEEP_LAST_N_DATASETS_def)
qed

lemma http_at_0500:
  "getNearestPublishedTime_http 1704085200000
     = \<lparr>hour = ''00'', date = ''20240101'', timestamp = ''2024010100'',
         moment = 1704080520000\<rparr>"
  by code_simp

lemma express_in_june:
  "getNearestPublishedTime 1717200000000 1704085200000
     = \<lparr>hour = ''00'', date = ''20240101'', timestamp = ''2024010100''\<rparr>"
  by (simp add: getNearestPublishedTime_def nearestTime_eq bucket_start_def
      SIX_HOURS_MS_def APPROX_PUBLISH_DELAY_MS_def format_YYYYMMDDHH_def format_cycles)

lemma http_before_0500:
  "map (\<lambda>hours. timestamp (getNearestPublishedTime_http (subtract_hours hours 1704085200000)))
     (getIncrementalArray KEEP_LAST_N_DATASETS 6)
   = [''2024010100'', ''2023123118'', ''2023123112'', ''2023123106'', ''2023123100'']"
  unfolding incremental_array
  by (simp add: subtract_hours_def timestamp_http nearestCyclePublishTime_eq bucket_start_def SIX_HOURS_MS_def
      APPROX_PUBLISH_DELAY_MS_def format_YYYYMMDDHH_def format_cycles)

lemma express_init_at_0200:
  "map (\<lambda>hours. getNearestPublishedTime 1704074400000 (subtract_hours hours 1704074400000))
     (getIncrementalArray KEEP_LAST_N_DATASETS 6)
   = [\<lparr>hour = ''18'', date = ''20231231'', timestamp = ''2023123118''\<rparr>,
      \<lparr>hour = ''18'', date = ''20231231'', timestamp = ''2023123118''\<rparr>,
      \<lparr>hour = ''12'', date = ''20231231'', timestamp = ''2023123112''\<rparr>,
      \<lparr>hour = ''06'', date = ''20231231'', timestamp = ''2023123106''\<rparr>,
      \<lparr>hour = ''00'', date = ''20231231'', timestamp = ''2023123100''\<rparr>]"
  unfolding incremental_array
  by (simp add: subtract_hours_def getNearestPublishedTime_def nearestTime_eq bucket_start_def
      SIX_HOURS_MS_def APPROX_PUBLISH_DELAY_MS_def format_YYYYMMDDHH_def format_cycles)

section \<open>What each step of the pipeline changes\<close>

lemma log_fields:
  "files (log e s) = files s" "in_flight (log e s) = in_flight s"
  "fetch_calls (log e s) = fetch_calls s" "convert_calls (log e s) = convert_calls s"
  "logged (log e s) = logged s @ [e]"
  by (simp_all add: log_def)

lemma convertGribToJson_fields:
  "files (convertGribToJson g j s) = files s"
  "in_flight (convertGribToJson g j s) = in_flight s @ [ExecConverter g j]"
  "fetch_calls (convertGribToJson g j s) = fetch_calls s"
  "convert_calls (convertGribToJson g j s) = convert_calls s @ [(g, j)]"
  by (simp_all add: convertGribToJson_def Let_def log_fields)

lemma getGribData_fields:
  "files (getGribData d h g j s) = files s"
  "in_flight (getGribData d h g j s) = in_flight s @ [HttpsGet d h g j]"
  "fetch_calls (getGribData d h g j s) = fetch_calls s @ [(d, h)]"
  "convert_calls (getGribData d h g j s) = convert_calls s"
  by (simp_all add: getGribData_def Let_def log_fields)

lemma maybeFetchGribData_files: "files (maybeFetchGribData resolve time s) = files s"
  by (simp add: maybeFetchGribData_def Let_def log_fields convertGribToJson_fields
      getGribData_fields)

lemma maybeFetchGribData_fetch_calls:
  "fetch_calls (maybeFetchGribData resolve time s) =
     fetch_calls s @
       (if existsSync (getJsonFilePath (timestamp (resolve time))) (files s)
           \<or> existsSync (getGribFilePath (timestamp (resolve time))) (files s)
        then [] else [(date (resolve time), hour (resolve time))])"
  by (simp add: maybeFetchGribData_def Let_def log_fields convertGribToJson_fields
      getGribData_fields)

lemma maybeFetchGribData_convert_calls:
  "convert_calls (maybeFetchGribData resolve time s) =
     convert_calls s @
       (if \<not> existsSync (getJsonFilePath (timestamp (resolve time))) (files s)
           \<and> existsSync (getGribFilePath (timestamp (resolve time))) (files s)
        then [(getGribFilePath (timestamp (resolve time)),
               getJsonFilePath (timestamp (resolve time)))]
        else [])"
  by (simp add: maybeFetchGribData_def Let_def log_fields convertGribToJson_fields
      getGribData_fields)

lemma maybeFetchGribData_in_flight:
  "in_flight (maybeFetchGribData resolve time s) =
     in_flight s @
       (if existsSync (getJsonFilePath (timestamp (resolve time))) (files s) then []
        else if existsSync (getGribFilePath (timestamp (resolve time))) (files s)
        then [ExecConverter (getGribFilePath (timestamp (resolve time)))
                (getJsonFilePath (timestamp (resolve time)))]
        else [HttpsGet (date (resolve time)) (hour (resolve time))
                (getGribFilePath (timestamp (resolve time)))
                (getJsonFilePath (timestamp (resolve time)))])"
  by (simp add: maybeFetchGribData_def Let_def log_fields convertGribToJson_fields
      getGribData_fields)

lemma maybeFetchGribData_funpow_files:
  "files ((maybeFetchGribData resolve time ^^ n) s) = files s"
  by (induction n) (simp_all add: maybeFetchGribData_files)


lemma fold_maybeFetchGribData_fetch_calls:
  "fetch_calls (fold (\<lambda>hours. maybeFetchGribData resolve (subtract_hours hours now)) hs s)
     = fetch_calls s @ concat (map (\<lambda>hours.
         (let c = resolve (subtract_hours hours now)
          in if existsSync (getJsonFilePath (timestamp c)) (files s)
                \<or> existsSync (getGribFilePath (timestamp c)) (files s)
             then [] else [(date c, hour c)])) hs)"
  by (induction hs arbitrary: s)
     (simp_all add: maybeFetchGribData_files maybeFetchGribData_fetch_calls Let_def)

lemma complete_response_200:
  assumes "i < length (in_flight s)" "in_flight s ! i = HttpsGet d h g j"
  shows "files (complete i (Response (Status200 buffer)) s)
           = writeFile (getGribFilePath (d @ h)) buffer (files s)"
    and "in_flight (complete i (Response (Status200 buffer)) s)
           = take i (in_flight s) @ drop (Suc i) (in_flight s) @ [ExecConverter g j]"
    and "fetch_calls (complete i (Response (Status200 buffer)) s) = fetch_calls s"
    and "convert_calls (complete i (Response (Status200 buffer)) s) = convert_calls s @ [(g, j)]"
  using assms
  by (simp_all add: complete_def getGribData_response_def on_settled_def Let_def log_fields
      convertGribToJson_fields)


lemma complete_converter_ok:
  assumes "i < length (in_flight s)" "in_flight s ! i = ExecConverter g j"
  shows "complete i (ConverterExit (ConverterOk content)) s
           = s\<lparr>in_flight := take i (in_flight s) @ drop (Suc i) (in_flight s),
                files := rm_all GRIB_DATA_DIR (writeFile j content (files s)),
                logged := logged s @ [Converted g j]\<rparr>"
  using assms
  by (simp add: complete_def convertGribToJson_callback_def Let_def log_def)

lemma complete_converter_error:
  assumes "i < length (in_flight s)" "in_flight s ! i = ExecConverter g j"
  shows "complete i (ConverterExit (ConverterError err)) s
           = s\<lparr>in_flight := take i (in_flight s) @ drop (Suc i) (in_flight s),
                logged := logged s @ [ConversionError err]\<rparr>"
  using assms
  by (simp add: complete_def convertGribToJson_callback_def Let_def log_def)

section \<open>Files and directories\<close>

lemma json_not_in_grib_dir: "entry_name GRIB_DATA_DIR (getJsonFilePath ts) = None"
  by (simp add: entry_name_def GRIB_DATA_DIR_def getJsonFilePath_def JSON_DATA_DIR_def Let_def)

lemma existsSync_writeFile: "existsSync p (writeFile q c fs) = (p = q \<or> existsSync p fs)"
  by (force simp: existsSync_def writeFile_def image_iff)

lemma existsSync_rm_all_other:
  "entry_name dir p = None \<Longrightarrow> existsSync p (rm_all dir fs) = existsSync p fs"
  by (force simp: existsSync_def rm_all_def image_iff)

lemma readFile_writeFile_same: "readFile p (writeFile p c fs) = Some c"
  by (simp add: readFile_def writeFile_def)

lemma readFile_rm_all_other:
  "entry_name dir p = None \<Longrightarrow> readFile p (rm_all dir fs) = readFile p fs"
  unfolding readFile_def rm_all_def
  by (induction fs) (auto split: option.splits)

lemma existsSync_readFile: "existsSync p fs \<longleftrightarrow> readFile p fs \<noteq> None"
  by (simp add: existsSync_def readFile_def map_of_eq_None_iff)

lemma readdirSync_rm_all:
  "name \<in> set (readdirSync dir (rm_all dir fs)) \<Longrightarrow> hd name = CHR ''.''"
  by (auto simp: readdirSync_def rm_all_def List.map_filter_def split: option.splits)

lemma entry_name_Some: "entry_name dir p = Some n \<Longrightarrow> p = dir @ ''/'' @ n"
proof -
  assume a: "entry_name dir p = Some n"
  then have "take (length dir + 1) p = dir @ ''/''" "n = drop (length dir + 1) p"
    by (auto simp: entry_name_def Let_def split: if_splits)
  then have "p = (dir @ ''/'') @ n"
    using append_take_drop_id [of "length dir + 1" p] by simp
  then show ?thesis by simp
qed

lemma set_readdirSync:
  "set (readdirSync dir fs) = {n. \<exists>e \<in> set fs. entry_name dir (fst e) = Some n}"
  by (force simp: readdirSync_def List.map_filter_def image_iff)

lemma fold_evict_files:
  "files (fold (evict_step keep) items s)
     = filter (\<lambda>e. fst e \<notin> {JSON_DATA_DIR @ ''/'' @ item | item.
                                 item \<in> set items \<and> JSON_DATA_DIR @ ''/'' @ item \<notin> set keep})
         (files s)"
proof (induction items arbitrary: s)
  case Nil
  show ?case by simp
next
  case (Cons x xs)
  have "files (evict_step keep x s)
          = filter (\<lambda>e. \<not> (fst e = JSON_DATA_DIR @ ''/'' @ x
                             \<and> JSON_DATA_DIR @ ''/'' @ x \<notin> set keep)) (files s)"
    by (simp add: evict_step_def Let_def unlinkSync_def)
  then show ?case
    by (simp add: Cons.IH) (rule filter_cong, auto)
qed

lemma fold_evict_other_fields:
  "in_flight (fold (evict_step keep) items s) = in_flight s"
  "fetch_calls (fold (evict_step keep) items s) = fetch_calls s"
  "convert_calls (fold (evict_step keep) items s) = convert_calls s"
  "logged (fold (evict_step keep) items s) = logged s"
  by (induction items arbitrary: s) (simp_all add: evict_step_def Let_def)

lemma deleteOlderData_fold:
  "deleteOlderData resolve now s
     = fold (evict_step (lastDataCyclesFiles resolve now)) (readdirSync JSON_DATA_DIR (files s)) s"
  unfolding deleteOlderData_def evict_step_def Let_def by simp

lemma keep_names:
  "(JSON_DATA_DIR @ ''/'' @ n \<in> set (lastDataCyclesFiles resolve now))
     = (n \<in> (\<lambda>hours. timestamp (resolve (subtract_hours hours now)) @ ''.json'')
              ` set (getIncrementalArray KEEP_LAST_N_DATASETS 6))"
  by (auto simp: lastDataCyclesFiles_def getJsonFilePath_def)

lemma evictExcept_names:
  "set (readdirSync JSON_DATA_DIR (files (evictExcept keep s)))
     = set (readdirSync JSON_DATA_DIR (files s))
       \<inter> {item. JSON_DATA_DIR @ ''/'' @ item \<in> set keep}"
proof -
  define D where "D = {JSON_DATA_DIR @ ''/'' @ item | item.
     item \<in> set (readdirSync JSON_DATA_DIR (files s)) \<and> JSON_DATA_DIR @ ''/'' @ item \<notin> set keep}"
  have f: "files (evictExcept keep s) = filter (\<lambda>e. fst e \<notin> D) (files s)"
    unfolding evictExcept_def D_def by (rule fold_evict_files)
  have "set (readdirSync JSON_DATA_DIR (filter (\<lambda>e. fst e \<notin> D) (files s)))
          = {n \<in> set (readdirSync JSON_DATA_DIR (files s)). JSON_DATA_DIR @ ''/'' @ n \<in> set keep}"
    (is "?L = ?R")
  proof (rule set_eqI)
    fix n
    show "n \<in> ?L \<longleftrightarrow> n \<in> ?R"
    proof
      assume "n \<in> ?L"
      then obtain e where e: "e \<in> set (files s)" "fst e \<notin> D"
          "entry_name JSON_DATA_DIR (fst e) = Some n"
        by (auto simp: set_readdirSync)
      then have n: "n \<in> set (readdirSync JSON_DATA_DIR (files s))"
        by (auto simp: set_readdirSync)
      have "fst e = JSON_DATA_DIR @ ''/'' @ n" using e(3) by (rule entry_name_Some)
      then have "JSON_DATA_DIR @ ''/'' @ n \<in> set keep"
        using e(2) n unfolding D_def by blast
      then show "n \<in> ?R" using n by simp
    next
      assume "n \<in> ?R"
      then have n: "n \<in> set (readdirSync JSON_DATA_DIR (files s))"
        and k: "JSON_DATA_DIR @ ''/'' @ n \<in> set keep" by simp_all
      from n obtain e where e: "e \<in> set (files s)" "entry_name JSON_DATA_DIR (fst e) = Some n"
        by (auto simp: set_readdirSync)
      have p: "fst e = JSON_DATA_DIR @ ''/'' @ n" using e(2) by (rule entry_name_Some)
      have "fst e \<notin> D" unfolding D_def p using k by auto
      then have "e \<in> set (filter (\<lambda>e. fst e \<notin> D) (files s))" using e(1) by simp
      then show "n \<in> ?L" unfolding set_readdirSync using e(2) by blast
    qed
  qed
  then show ?thesis unfolding f by blast
qed

lemma deleteOlderData_evictExcept:
  "deleteOlderData resolve now s = evictExcept (lastDataCyclesFiles resolve now) s"
  by (simp add: deleteOlderData_fold evictExcept_def)

lemma deleteOlderData_names:
  "set (readdirSync JSON_DATA_DIR (files (deleteOlderData resolve now s)))
     = set (readdirSync JSON_DATA_DIR (files s))
       \<inter> (\<lambda>hours. timestamp (resolve (subtract_hours hours now)) @ ''.json'')
           ` set (getIncrementalArray KEEP_LAST_N_DATASETS 6)"
  unfolding deleteOlderData_evictExcept evictExcept_names keep_names by blast

lemma deleteOlderData_other_fields:
  "in_flight (deleteOlderData resolve now s) = in_flight s"
  "fetch_calls (deleteOlderData resolve now s) = fetch_calls s"
  "convert_calls (deleteOlderData resolve now s) = convert_calls s"
  by (simp_all add: deleteOlderData_fold fold_evict_other_fields)

section \<open>Ticks after the start, and what a completion writes\<close>







lemma readFile_writeFile_other: "p \<noteq> q \<Longrightarrow> readFile p (writeFile q c fs) = readFile p fs"
  unfolding readFile_def writeFile_def
  by (induction fs) auto

lemma json_path_not_grib_path: "getJsonFilePath a \<noteq> getGribFilePath b"
  by (simp add: getJsonFilePath_def getGribFilePath_def JSON_DATA_DIR_def GRIB_DATA_DIR_def)

lemma reader_sees_prior_or_whole:
  "readFile (getJsonFilePath ts) (files (complete i ev s))
     = readFile (getJsonFilePath ts) (files s)
   \<or> (\<exists>g content. i < length (in_flight s)
         \<and> in_flight s ! i = ExecConverter g (getJsonFilePath ts)
         \<and> ev = ConverterExit (ConverterOk content)
         \<and> readFile (getJsonFilePath ts) (files (complete i ev s)) = Some content)"
proof (cases "i < length (in_flight s)")
  case False
  then show ?thesis by (simp add: complete_def)
next
  case True
  show ?thesis
  proof (cases "in_flight s ! i")
    case (HttpsGet d h g j)
    show ?thesis
    proof (cases ev)
      case (Response r)
      have "readFile (getJsonFilePath ts) (files (complete i (Response r) s))
              = readFile (getJsonFilePath ts) (files s)"
        using True HttpsGet
        by (cases r)
           (simp_all add: complete_def getGribData_response_def on_settled_def Let_def
            log_fields convertGribToJson_fields readFile_writeFile_other
            json_path_not_grib_path)
      then show ?thesis by (simp add: Response)
    next
      case (ConverterExit r)
      then show ?thesis using True HttpsGet by (simp add: complete_def)
    qed
  next
    case (ExecConverter g j)
    show ?thesis
    proof (cases ev)
      case (Response r)
      then show ?thesis using True ExecConverter by (simp add: complete_def)
    next
      case (ConverterExit r)
      show ?thesis
      proof (cases r)
        case (ConverterError err)
        then show ?thesis
          using complete_converter_error [OF True ExecConverter] ConverterExit by simp
      next
        case (ConverterOk content)
        have f: "files (complete i ev s) = rm_all GRIB_DATA_DIR (writeFile j content (files s))"
          using complete_converter_ok [OF True ExecConverter] ConverterExit ConverterOk by simp
        show ?thesis
        proof (cases "j = getJsonFilePath ts")
          case True
          have "readFile (getJsonFilePath ts) (files (complete i ev s)) = Some content"
            unfolding f True [symmetric]
            using readFile_rm_all_other [OF json_not_in_grib_dir] True readFile_writeFile_same
            by metis
          then show ?thesis
            using \<open>i < length (in_flight s)\<close> ExecConverter ConverterExit ConverterOk True
            by blast
        next
          case False
          then have "readFile (getJsonFilePath ts) (files (complete i ev s))
                       = readFile (getJsonFilePath ts) (files s)"
            unfolding f
            by (simp add: readFile_rm_all_other [OF json_not_in_grib_dir]
                readFile_writeFile_other)
          then show ?thesis by simp
        qed
      qed
    qed
  qed
qed

lemma complete_creates_only_final_path:
  "fst ` set (files (complete i ev s))
     \<subseteq> fst ` set (files s)
       \<union> (if i < length (in_flight s)
          then (case in_flight s ! i of
                  HttpsGet d h g j \<Rightarrow> {getGribFilePath (d @ h)}
                | ExecConverter g j \<Rightarrow> {j})
          else {})"
proof -
  have w: "fst ` set (writeFile p c fs) \<subseteq> fst ` set fs \<union> {p}" for p c fs
    by (auto simp: writeFile_def)
  have r: "fst ` set (rm_all d fs) \<subseteq> fst ` set fs" for d fs
    by (auto simp: rm_all_def)
  show ?thesis
  proof (cases "i < length (in_flight s)")
    case False
    then show ?thesis by (simp add: complete_def)
  next
    case True
    show ?thesis
    proof (cases "in_flight s ! i")
      case (HttpsGet d h g j)
      show ?thesis
      proof (cases ev)
        case (Response resp)
        show ?thesis
          using True HttpsGet Response w [of "getGribFilePath (d @ h)" _ "files s"]
          by (cases resp)
             (auto simp: complete_def getGribData_response_def on_settled_def Let_def
              log_fields convertGribToJson_fields)
      next
        case (ConverterExit x)
        then show ?thesis using True HttpsGet by (auto simp: complete_def)
      qed
    next
      case (ExecConverter g j)
      show ?thesis
      proof (cases ev)
        case (Response resp)
        then show ?thesis using True ExecConverter by (auto simp: complete_def)
      next
        case (ConverterExit x)
        show ?thesis
        proof (cases x)
          case (ConverterOk content)
          have "fst ` set (rm_all GRIB_DATA_DIR (writeFile j content (files s)))
                  \<subseteq> fst ` set (files s) \<union> {j}"
            using r [of GRIB_DATA_DIR "writeFile j content (files s)"] w [of j content "files s"]
            by blast
          then show ?thesis
            using True ExecConverter ConverterExit ConverterOk
              complete_converter_ok [OF True ExecConverter, of content]
            by simp
        next
          case (ConverterError err)
          then show ?thesis
            using True ExecConverter ConverterExit
              complete_converter_error [OF True ExecConverter, of err]
            by auto
        qed
      qed
    qed
  qed
qed

section \<open>Properties of the cycle resolver\<close>

text \<open>
  C1. The http variant of \<^verbatim>\<open>getNearestPublishedTime\<close> compares the publish instant with
  the query instant \<open>t\<close>: for every \<open>t\<close> the cycle it names is the bucket \<open>c\<close> of the
  returned moment, and \<open>c\<close> plus the publish delay (13320000 ms, 3h42m, which is more
  than 3h40m) is not later than the returned moment, which is not later than \<open>t\<close>.
  The express variant names the bucket \<open>nearestTime now t\<close> and decides the step back
  from the wall clock \<open>now\<close>, not from \<open>t\<close>: its publish instant is not later than \<open>t\<close>
  whenever \<open>now \<le> t\<close> (so whenever it resolves the current time), and when it names the
  bucket of \<open>t\<close> itself, that bucket's publish instant is not later than \<open>now\<close>.
\<close>

theorem resolve_publish_instant:
  "(let r = getNearestPublishedTime_http t; c = bucket_start (moment r)
    in timestamp r = format_YYYYMMDDHH c \<and> c + APPROX_PUBLISH_DELAY_MS \<le> moment r
       \<and> moment r \<le> t)
   \<and> timestamp (getNearestPublishedTime now t) = format_YYYYMMDDHH (nearestTime now t)
   \<and> (now \<le> t \<longrightarrow> nearestTime now t + APPROX_PUBLISH_DELAY_MS \<le> t)
   \<and> (nearestTime now t = bucket_start t \<longrightarrow> bucket_start t + APPROX_PUBLISH_DELAY_MS \<le> now)"
proof -
  have m: "moment (getNearestPublishedTime_http t) = nearestCyclePublishTime t"
    by (simp add: getNearestPublishedTime_http_def Let_def)
  have "0 \<le> t mod 60000" by simp
  then have a: "bucket_start (nearestCyclePublishTime t) + APPROX_PUBLISH_DELAY_MS
                  \<le> nearestCyclePublishTime t"
    using publish_time_bucket [of t] by linarith
  have b: "timestamp (getNearestPublishedTime now t) = format_YYYYMMDDHH (nearestTime now t)"
    by (simp add: getNearestPublishedTime_def Let_def)
  have c: "now \<le> t \<longrightarrow> nearestTime now t + APPROX_PUBLISH_DELAY_MS \<le> t"
    unfolding nearestTime_eq using bucket_start_le [of t]
    by (simp add: APPROX_PUBLISH_DELAY_MS_def SIX_HOURS_MS_def)
  have d: "nearestTime now t = bucket_start t \<longrightarrow> bucket_start t + APPROX_PUBLISH_DELAY_MS \<le> now"
    unfolding nearestTime_eq by (simp add: SIX_HOURS_MS_def)
  show ?thesis
    using a b c d nearestCyclePublishTime_le [of t] timestamp_http [of t]
    by (simp only: Let_def m)
qed

theorem resolve_publish_instant_witness:
  "nearestTime 1704085200000 1704085200000 + APPROX_PUBLISH_DELAY_MS \<le> 1704085200000
   \<and> bucket_start 1704085200000 + APPROX_PUBLISH_DELAY_MS \<le> 1704085200000"
proof -
  have h1: "(1704085200000::int) \<le> 1704085200000" by simp
  have h2: "nearestTime 1704085200000 1704085200000 = bucket_start 1704085200000"
    by (simp add: nearestTime_eq bucket_examples APPROX_PUBLISH_DELAY_MS_def)
  show ?thesis
    using h1 h2 resolve_publish_instant [of 1704085200000 1704085200000] by simp
qed

text \<open>
  The claim as stated, for every wall clock, fails in the express variant. Resolving
  2024-01-01T02:00:00Z (1704074400000) on 2024-06-01T00:00:00Z (1717200000000) names cycle
  2024010100, whose bucket starts at 1704067200000; that plus 3h40m is 03:40, later than
  the query instant.
\<close>

theorem resolve_past_instant_counterexample:
  "timestamp (getNearestPublishedTime 1717200000000 1704074400000) = ''2024010100''
   \<and> nearestTime 1717200000000 1704074400000 = 1704067200000
   \<and> \<not> (nearestTime 1717200000000 1704074400000 + 13200000 \<le> 1704074400000)"
  by (simp add: getNearestPublishedTime_def nearestTime_eq bucket_examples
      APPROX_PUBLISH_DELAY_MS_def format_examples)

text \<open>
  C2. The two worked inputs. The http variant returns 2024010100 for
  2024-01-01T05:00:00Z and 2023123118 for 2024-01-01T02:00:00Z. The express variant
  returns the same cycle for both inputs, and which one depends on the wall clock only:
  2023123118 while \<open>now\<close> is before 2024-01-01T03:42:00Z, 2024010100 from then on.
\<close>

theorem resolve_examples:
  "map_option (\<lambda>t. timestamp (getNearestPublishedTime_http t))
     (parse_iso_utc ''2024-01-01T05:00:00Z'') = Some ''2024010100''
   \<and> map_option (\<lambda>t. timestamp (getNearestPublishedTime_http t))
     (parse_iso_utc ''2024-01-01T02:00:00Z'') = Some ''2023123118''
   \<and> map_option (\<lambda>t. timestamp (getNearestPublishedTime now t))
     (parse_iso_utc ''2024-01-01T05:00:00Z'')
       = Some (if now < utc 2024 1 1 3 42 0 then ''2023123118'' else ''2024010100'')
   \<and> map_option (\<lambda>t. timestamp (getNearestPublishedTime now t))
     (parse_iso_utc ''2024-01-01T02:00:00Z'')
       = Some (if now < utc 2024 1 1 3 42 0 then ''2023123118'' else ''2024010100'')"
proof -
  have u: "utc 2024 1 1 3 42 0 = 1704080520000"
    by (simp add: utc_def days_from_civil_def)
  have "1704085200000 mod (60000::int) = 0" "1704074400000 mod (60000::int) = 0" by simp_all
  then have p: "nearestCyclePublishTime 1704085200000 = 1704080520000"
               "nearestCyclePublishTime 1704074400000 = 1704058920000"
    by (simp_all add: nearestCyclePublishTime_eq bucket_examples APPROX_PUBLISH_DELAY_MS_def
        SIX_HOURS_MS_def)
  have b: "bucket_start 1704080520000 = 1704067200000" "bucket_start 1704058920000 = 1704045600000"
    by (simp_all add: bucket_start_def SIX_HOURS_MS_def)
  have h: "timestamp (getNearestPublishedTime_http 1704085200000) = ''2024010100''"
          "timestamp (getNearestPublishedTime_http 1704074400000) = ''2023123118''"
    by (simp_all add: timestamp_http p b format_examples)
  have e: "timestamp (getNearestPublishedTime now 1704085200000)
             = (if now < 1704080520000 then ''2023123118'' else ''2024010100'')"
          "timestamp (getNearestPublishedTime now 1704074400000)
             = (if now < 1704080520000 then ''2023123118'' else ''2024010100'')"
    by (simp_all add: getNearestPublishedTime_def nearestTime_eq bucket_examples
        APPROX_PUBLISH_DELAY_MS_def SIX_HOURS_MS_def format_examples)
  show ?thesis
    by (simp only: parse_examples option.map h e u)
qed

text \<open>
  In the express variant, run on 2024-06-01, the second input does not resolve to
  2023123118.
\<close>

theorem resolve_examples_counterexample:
  "map_option (\<lambda>t. timestamp (getNearestPublishedTime (utc 2024 6 1 0 0 0) t))
     (parse_iso_utc ''2024-01-01T02:00:00Z'') \<noteq> Some ''2023123118''"
proof -
  have u: "utc 2024 6 1 0 0 0 = 1717200000000"
    by (simp add: utc_def days_from_civil_def)
  have "timestamp (getNearestPublishedTime 1717200000000 1704074400000) = ''2024010100''"
    by (simp add: getNearestPublishedTime_def nearestTime_eq bucket_examples
        APPROX_PUBLISH_DELAY_MS_def format_examples)
  then show ?thesis
    by (simp add: parse_examples u)
qed

section \<open>Properties of the pipeline, the eviction and the scheduler\<close>

text \<open>
  C3. \<^verbatim>\<open>maybeFetchGribData\<close> on a warm cache: when the JSON file of the cycle it
  resolves exists, the call only writes two log lines; the files, the operations in
  flight and the invocations of the fetch collaborator and of the converter are
  unchanged. In particular, after a first call on a cold cache whose request is answered
  with status 200 and whose conversion succeeds, the JSON file exists, and a second call
  adds no request and no conversion: the first attempt's one request and one conversion
  are all there is.
\<close>

theorem ensure_warm_cache:
  "(existsSync (getJsonFilePath (timestamp (resolve time))) (files s) \<longrightarrow>
      maybeFetchGribData resolve time s
        = s\<lparr>logged := logged s @ [TargetTime time (timestamp (resolve time)),
                                    DataExists (timestamp (resolve time))]\<rparr>)
   \<and> (let c = resolve time;
           json = getJsonFilePath (timestamp c);
           grib = getGribFilePath (timestamp c);
           i = length (in_flight s);
           s1 = maybeFetchGribData resolve time s;
           s2 = complete i (Response (Status200 buffer)) s1;
           s3 = complete i (ConverterExit (ConverterOk content)) s2;
           s4 = maybeFetchGribData resolve time s3
       in \<not> existsSync json (files s) \<and> \<not> existsSync grib (files s) \<longrightarrow>
            existsSync json (files s3)
            \<and> fetch_calls s4 = fetch_calls s @ [(date c, hour c)]
            \<and> convert_calls s4 = convert_calls s @ [(grib, json)]
            \<and> files s4 = files s3
            \<and> in_flight s4 = in_flight s)"
proof -
  define c where "c = resolve time"
  define json where "json = getJsonFilePath (timestamp c)"
  define grib where "grib = getGribFilePath (timestamp c)"
  define i where "i = length (in_flight s)"
  define s1 where "s1 = maybeFetchGribData resolve time s"
  define s2 where "s2 = complete i (Response (Status200 buffer)) s1"
  define s3 where "s3 = complete i (ConverterExit (ConverterOk content)) s2"
  define s4 where "s4 = maybeFetchGribData resolve time s3"
  have warm: "existsSync (getJsonFilePath (timestamp (resolve time))) (files s) \<longrightarrow>
      maybeFetchGribData resolve time s
        = s\<lparr>logged := logged s @ [TargetTime time (timestamp (resolve time)),
                                    DataExists (timestamp (resolve time))]\<rparr>"
    by (simp add: maybeFetchGribData_def Let_def log_def)
  have cold: "existsSync json (files s3)
            \<and> fetch_calls s4 = fetch_calls s @ [(date c, hour c)]
            \<and> convert_calls s4 = convert_calls s @ [(grib, json)]
            \<and> files s4 = files s3
            \<and> in_flight s4 = in_flight s"
    if miss: "\<not> existsSync json (files s)" "\<not> existsSync grib (files s)"
  proof -
    have f1: "in_flight s1 = in_flight s @ [HttpsGet (date c) (hour c) grib json]"
      and c1: "fetch_calls s1 = fetch_calls s @ [(date c, hour c)]"
      and v1: "convert_calls s1 = convert_calls s"
      using miss
      by (simp_all add: s1_def maybeFetchGribData_in_flight maybeFetchGribData_fetch_calls
          maybeFetchGribData_convert_calls c_def json_def grib_def)
    have n1: "i < length (in_flight s1)" "in_flight s1 ! i = HttpsGet (date c) (hour c) grib json"
      by (simp_all add: f1 i_def)
    have f2: "in_flight s2 = in_flight s @ [ExecConverter grib json]"
      and c2: "fetch_calls s2 = fetch_calls s1"
      and v2: "convert_calls s2 = convert_calls s1 @ [(grib, json)]"
      unfolding s2_def
      by (simp_all add: complete_response_200 [OF n1]) (simp_all add: f1 i_def)
    have n2: "i < length (in_flight s2)" "in_flight s2 ! i = ExecConverter grib json"
      by (simp_all add: f2 i_def)
    have s3: "s3 = s2\<lparr>in_flight := take i (in_flight s2) @ drop (Suc i) (in_flight s2),
                files := rm_all GRIB_DATA_DIR (writeFile json content (files s2)),
                logged := logged s2 @ [Converted grib json]\<rparr>"
      unfolding s3_def by (rule complete_converter_ok [OF n2])
    have e3: "existsSync json (files s3)"
      by (simp add: s3 json_def existsSync_rm_all_other [OF json_not_in_grib_dir]
          existsSync_writeFile)
    have f3: "in_flight s3 = in_flight s" by (simp add: s3 f2 i_def)
    have c3: "fetch_calls s3 = fetch_calls s2" "convert_calls s3 = convert_calls s2"
      by (simp_all add: s3)
    have e3': "existsSync (getJsonFilePath (timestamp (resolve time))) (files s3)"
      using e3 by (simp add: json_def c_def)
    show ?thesis
      using e3 e3' f3 c3 c2 c1 v2 v1
      by (simp add: s4_def maybeFetchGribData_files maybeFetchGribData_fetch_calls
          maybeFetchGribData_convert_calls maybeFetchGribData_in_flight)
  qed
  show ?thesis
    using warm cold
    unfolding Let_def c_def json_def grib_def i_def s1_def s2_def s3_def s4_def
    by blast
qed

theorem ensure_warm_cache_witness:
  "maybeFetchGribData getNearestPublishedTime_http 1704085200000 warm_server
     = warm_server\<lparr>logged := [TargetTime 1704085200000 ''2024010100'',
                                  DataExists ''2024010100'']\<rparr>
   \<and> fetch_calls (maybeFetchGribData getNearestPublishedTime_http 1704085200000
        (complete 0 (ConverterExit (ConverterOk ''[]''))
          (complete 0 (Response (Status200 ''GRIB''))
            (maybeFetchGribData getNearestPublishedTime_http 1704085200000 empty_server))))
     = [(''20240101'', ''00'')]
   \<and> convert_calls (maybeFetchGribData getNearestPublishedTime_http 1704085200000
        (complete 0 (ConverterExit (ConverterOk ''[]''))
          (complete 0 (Response (Status200 ''GRIB''))
            (maybeFetchGribData getNearestPublishedTime_http 1704085200000 empty_server))))
     = [(''grib/2024010100.f000'', ''json/2024010100.json'')]"
proof -
  have h1: "existsSync (getJsonFilePath (timestamp (getNearestPublishedTime_http 1704085200000)))
              (files warm_server)"
    by (simp add: http_at_0500 warm_server_def empty_server_def existsSync_def
        getJsonFilePath_def JSON_DATA_DIR_def)
  have h2: "\<not> existsSync (getJsonFilePath (timestamp (getNearestPublishedTime_http 1704085200000)))
              (files empty_server)"
           "\<not> existsSync (getGribFilePath (timestamp (getNearestPublishedTime_http 1704085200000)))
              (files empty_server)"
    by (simp_all add: empty_server_def existsSync_def)
  have l: "logged warm_server = []" "in_flight empty_server = []"
     "fetch_calls empty_server = []" "convert_calls empty_server = []"
    by (simp_all add: warm_server_def empty_server_def)
  show ?thesis
    using h1 h2
      ensure_warm_cache [of getNearestPublishedTime_http 1704085200000 warm_server]
      ensure_warm_cache [of getNearestPublishedTime_http 1704085200000 empty_server
        "''GRIB''" "''[]''"]
    by (simp add: Let_def l http_at_0500 getJsonFilePath_def getGribFilePath_def
        JSON_DATA_DIR_def GRIB_DATA_DIR_def)
qed

text \<open>
  C4. Eviction is an intersection. For every list \<open>keep\<close> of paths, after the loop of
  \<^verbatim>\<open>deleteOlderData\<close> the entries of the json directory are the entries it had before
  whose path is in \<open>keep\<close>. \<^verbatim>\<open>deleteOlderData\<close> is that loop for the paths of the
  cycles it resolves from \<open>now - k * 6h\<close>, \<open>k = 0..4\<close>; a record is the file
  \<^verbatim>\<open><cycle>.json\<close>, so afterwards the records are those of before that belong to one of
  these cycles.
\<close>

theorem eviction_is_intersection:
  "deleteOlderData resolve now s = evictExcept (lastDataCyclesFiles resolve now) s
   \<and> set (readdirSync JSON_DATA_DIR (files (evictExcept keep s)))
     = set (readdirSync JSON_DATA_DIR (files s))
       \<inter> {item. JSON_DATA_DIR @ ''/'' @ item \<in> set keep}
   \<and> set (readdirSync JSON_DATA_DIR (files (deleteOlderData resolve now s)))
     = set (readdirSync JSON_DATA_DIR (files s))
       \<inter> (\<lambda>hours. timestamp (resolve (subtract_hours hours now)) @ ''.json'')
           ` set (getIncrementalArray KEEP_LAST_N_DATASETS 6)"
  using deleteOlderData_evictExcept [of resolve now s] evictExcept_names [of keep s]
    deleteOlderData_names [of resolve now s]
  by (simp only:)

text \<open>
  C5. The periodic tick calls \<^verbatim>\<open>maybeFetchGribData()\<close> once, for the current time, and then
  \<^verbatim>\<open>deleteOlderData()\<close>. So a tick invokes the pipeline for one cycle only, the one
  resolved from \<open>now\<close>: it sends at most one request (when neither the JSON file nor the
  raw file of that cycle exists) and starts at most one conversion (when only the raw
  file exists); then it evicts every record outside the five cycles resolved from
  \<open>now - k * 6h\<close>, \<open>k = 0..4\<close>. Only the start of the program goes through all
  five: \<^verbatim>\<open>init\<close> sends a request for each \<open>k\<close> whose cycle has neither file.
\<close>

theorem scheduler_tick:
  "fetch_calls (tick resolve now s)
     = fetch_calls s @
         (if existsSync (getJsonFilePath (timestamp (resolve now))) (files s)
             \<or> existsSync (getGribFilePath (timestamp (resolve now))) (files s)
          then [] else [(date (resolve now), hour (resolve now))])
   \<and> convert_calls (tick resolve now s)
     = convert_calls s @
         (if existsSync (getJsonFilePath (timestamp (resolve now))) (files s)
             \<or> \<not> existsSync (getGribFilePath (timestamp (resolve now))) (files s)
          then []
          else [(getGribFilePath (timestamp (resolve now)),
                 getJsonFilePath (timestamp (resolve now)))])
   \<and> set (readdirSync JSON_DATA_DIR (files (tick resolve now s)))
     = set (readdirSync JSON_DATA_DIR (files s))
       \<inter> (\<lambda>hours. timestamp (resolve (subtract_hours hours now)) @ ''.json'')
           ` set (getIncrementalArray KEEP_LAST_N_DATASETS 6)
   \<and> fetch_calls (init resolve now s)
     = fetch_calls s @ concat (map (\<lambda>hours.
         (let c = resolve (subtract_hours hours now)
          in if existsSync (getJsonFilePath (timestamp c)) (files s)
                \<or> existsSync (getGribFilePath (timestamp c)) (files s)
             then [] else [(date c, hour c)]))
         (getIncrementalArray KEEP_LAST_N_DATASETS 6))"
proof -
  have a: "fetch_calls (tick resolve now s) = fetch_calls (maybeFetchGribData resolve now s)"
    and b: "convert_calls (tick resolve now s) = convert_calls (maybeFetchGribData resolve now s)"
    by (simp_all add: tick_def deleteOlderData_other_fields)
  have c: "set (readdirSync JSON_DATA_DIR (files (tick resolve now s)))
     = set (readdirSync JSON_DATA_DIR (files s))
       \<inter> (\<lambda>hours. timestamp (resolve (subtract_hours hours now)) @ ''.json'')
           ` set (getIncrementalArray KEEP_LAST_N_DATASETS 6)"
    unfolding tick_def
    using deleteOlderData_names [of resolve now "maybeFetchGribData resolve now s"]
    by (simp only: maybeFetchGribData_files)
  have d: "fetch_calls (init resolve now s)
     = fetch_calls s @ concat (map (\<lambda>hours.
         (let c = resolve (subtract_hours hours now)
          in if existsSync (getJsonFilePath (timestamp c)) (files s)
                \<or> existsSync (getGribFilePath (timestamp c)) (files s)
             then [] else [(date c, hour c)]))
         (getIncrementalArray KEEP_LAST_N_DATASETS 6))"
    unfolding init_def by (rule fold_maybeFetchGribData_fetch_calls)
  show ?thesis
    unfolding a b
    using c d
    by (simp add: maybeFetchGribData_fetch_calls maybeFetchGribData_convert_calls)
qed

text \<open>
  The claim as stated fails: on an empty cache at 2024-01-01T05:00:00Z none of the five
  cycles is ready, and a tick of the http variant sends the one request for 2024010100.
\<close>

theorem tick_fetches_one_cycle_counterexample:
  "map (\<lambda>hours. timestamp (getNearestPublishedTime_http (subtract_hours hours 1704085200000)))
     (getIncrementalArray KEEP_LAST_N_DATASETS 6)
   = [''2024010100'', ''2023123118'', ''2023123112'', ''2023123106'', ''2023123100'']
   \<and> files empty_server = []
   \<and> fetch_calls (tick getNearestPublishedTime_http 1704085200000 empty_server)
       = [(''20240101'', ''00'')]
   \<and> convert_calls (tick getNearestPublishedTime_http 1704085200000 empty_server) = []"
proof -
  have "files empty_server = []" "fetch_calls empty_server = []" "convert_calls empty_server = []"
    by (simp_all add: empty_server_def)
  then show ?thesis
    by (simp add: http_before_0500 tick_def deleteOlderData_other_fields
        maybeFetchGribData_fetch_calls maybeFetchGribData_convert_calls http_at_0500
        existsSync_def)
qed




text \<open>
  C7. The end of a conversion. When the converter succeeds, the JSON file holds its
  output and \<^verbatim>\<open>rm grib/*\<close> has removed the raw data: no entry of the grib directory is
  left but hidden ones. When the converter fails, no file changes: the dataset cache is
  untouched and the raw file stays, and a later call of \<^verbatim>\<open>maybeFetchGribData\<close> for that
  cycle finds it and starts the converter again without sending a request. Neither
  outcome invokes a collaborator by itself.
\<close>

theorem conversion_outcome:
  "(let json = getJsonFilePath ts;
        grib = getGribFilePath ts;
        ok = complete i (ConverterExit (ConverterOk content)) s;
        failed = complete i (ConverterExit (ConverterError err)) s
    in i < length (in_flight s) \<and> in_flight s ! i = ExecConverter grib json \<longrightarrow>
         files failed = files s
         \<and> readFile json (files ok) = Some content
         \<and> (\<forall>name \<in> set (readdirSync GRIB_DATA_DIR (files ok)). hd name = CHR ''.'')
         \<and> fetch_calls ok = fetch_calls s \<and> convert_calls ok = convert_calls s
         \<and> fetch_calls failed = fetch_calls s \<and> convert_calls failed = convert_calls s
         \<and> (timestamp (resolve time) = ts \<and> existsSync grib (files s)
              \<and> \<not> existsSync json (files s) \<longrightarrow>
             fetch_calls (maybeFetchGribData resolve time failed) = fetch_calls s
             \<and> convert_calls (maybeFetchGribData resolve time failed)
                 = convert_calls s @ [(grib, json)]))"
proof -
  have "files (complete i (ConverterExit (ConverterError err)) s) = files s
      \<and> readFile (getJsonFilePath ts) (files (complete i (ConverterExit (ConverterOk content)) s))
           = Some content
      \<and> (\<forall>name \<in> set (readdirSync GRIB_DATA_DIR
             (files (complete i (ConverterExit (ConverterOk content)) s))). hd name = CHR ''.'')
      \<and> fetch_calls (complete i (ConverterExit (ConverterOk content)) s) = fetch_calls s
      \<and> convert_calls (complete i (ConverterExit (ConverterOk content)) s) = convert_calls s
      \<and> fetch_calls (complete i (ConverterExit (ConverterError err)) s) = fetch_calls s
      \<and> convert_calls (complete i (ConverterExit (ConverterError err)) s) = convert_calls s
      \<and> (timestamp (resolve time) = ts \<and> existsSync (getGribFilePath ts) (files s)
              \<and> \<not> existsSync (getJsonFilePath ts) (files s) \<longrightarrow>
             fetch_calls (maybeFetchGribData resolve time
                 (complete i (ConverterExit (ConverterError err)) s)) = fetch_calls s
             \<and> convert_calls (maybeFetchGribData resolve time
                 (complete i (ConverterExit (ConverterError err)) s))
                 = convert_calls s @ [(getGribFilePath ts, getJsonFilePath ts)])"
    if n: "i < length (in_flight s)"
          "in_flight s ! i = ExecConverter (getGribFilePath ts) (getJsonFilePath ts)"
    by (simp add: complete_converter_ok [OF n] complete_converter_error [OF n]
        readFile_rm_all_other [OF json_not_in_grib_dir] readFile_writeFile_same
        readdirSync_rm_all maybeFetchGribData_fetch_calls maybeFetchGribData_convert_calls)
  then show ?thesis unfolding Let_def by blast
qed

theorem conversion_outcome_witness:
  "files (complete 0 (ConverterExit (ConverterError ''exit 1'')) converting_server)
     = [(''grib/2024010100.f000'', ''GRIB'')]
   \<and> readFile ''json/2024010100.json''
        (files (complete 0 (ConverterExit (ConverterOk ''[]'')) converting_server)) = Some ''[]''
   \<and> readdirSync GRIB_DATA_DIR
        (files (complete 0 (ConverterExit (ConverterOk ''[]'')) converting_server)) = []
   \<and> convert_calls (maybeFetchGribData getNearestPublishedTime_http 1704085200000
        (complete 0 (ConverterExit (ConverterError ''exit 1'')) converting_server))
     = [(''grib/2024010100.f000'', ''json/2024010100.json'')]
   \<and> fetch_calls (maybeFetchGribData getNearestPublishedTime_http 1704085200000
        (complete 0 (ConverterExit (ConverterError ''exit 1'')) converting_server)) = []"
proof -
  have h: "0 < length (in_flight converting_server)"
    "in_flight converting_server ! 0
       = ExecConverter (getGribFilePath ''2024010100'') (getJsonFilePath ''2024010100'')"
    by (simp_all add: converting_server_def empty_server_def getJsonFilePath_def
        JSON_DATA_DIR_def getGribFilePath_def GRIB_DATA_DIR_def)
  have g: "timestamp (getNearestPublishedTime_http 1704085200000) = ''2024010100''"
    "existsSync (getGribFilePath ''2024010100'') (files converting_server)"
    "\<not> existsSync (getJsonFilePath ''2024010100'') (files converting_server)"
    by (simp_all add: http_at_0500 converting_server_def empty_server_def existsSync_def
        getJsonFilePath_def JSON_DATA_DIR_def getGribFilePath_def GRIB_DATA_DIR_def)
  have r: "readdirSync GRIB_DATA_DIR
        (files (complete 0 (ConverterExit (ConverterOk ''[]'')) converting_server)) = []"
    by (subst complete_converter_ok [OF h])
       (simp add: converting_server_def empty_server_def
        rm_all_def writeFile_def entry_name_def readdirSync_def List.map_filter_def
        GRIB_DATA_DIR_def getJsonFilePath_def JSON_DATA_DIR_def Let_def)
  have l: "files converting_server = [(''grib/2024010100.f000'', ''GRIB'')]"
    "fetch_calls converting_server = []" "convert_calls converting_server = []"
    by (simp_all add: converting_server_def empty_server_def)
  show ?thesis
    using h g r conversion_outcome [where i = 0 and s = converting_server
        and ts = "''2024010100''" and content = "''[]''" and err = "''exit 1''"
        and resolve = getNearestPublishedTime_http and time = 1704085200000]
    by (simp add: Let_def l getJsonFilePath_def JSON_DATA_DIR_def getGribFilePath_def
        GRIB_DATA_DIR_def)
qed

text \<open>
  The claim as stated fails on a converter failure: the raw file of the cycle is still
  there.
\<close>

theorem raw_data_kept_on_failure_counterexample:
  "existsSync ''grib/2024010100.f000''
     (files (complete 0 (ConverterExit (ConverterError ''exit 1'')) converting_server))"
proof -
  have h: "0 < length (in_flight converting_server)"
    "in_flight converting_server ! 0
       = ExecConverter ''grib/2024010100.f000'' ''json/2024010100.json''"
    by (simp_all add: converting_server_def empty_server_def)
  show ?thesis
    by (subst complete_converter_error [OF h])
       (simp add: converting_server_def empty_server_def existsSync_def)
qed

section \<open>Where the artifact is written\<close>

text \<open>
  C8. Where the artifact is written. The program uses no temporary path and no rename.
  \<^verbatim>\<open>maybeFetchGribData\<close> changes no file; every operation it starts carries the JSON
  path \<^verbatim>\<open>json/<cycle>.json\<close> of the cycle, the path that the readers test with
  \<^verbatim>\<open>existsSync\<close> and read, and the converter is started with that path as its
  \<^verbatim>\<open>--output\<close>. The completion of an operation adds no path but the operation's own:
  the grib path of a response, the JSON path of a conversion. With the converter's
  output taken to be in place when the converter exits, a reader of a cycle's JSON path
  sees after each completion either what it saw before or the whole output of a
  converter that was started on that path and has exited without error. What a reader
  sees while the converter is writing is up to the converter.
\<close>

theorem artifact_written_in_place:
  "files (maybeFetchGribData resolve time s) = files s
   \<and> in_flight (maybeFetchGribData resolve time s)
     = in_flight s @
         (if existsSync (getJsonFilePath (timestamp (resolve time))) (files s) then []
          else if existsSync (getGribFilePath (timestamp (resolve time))) (files s)
          then [ExecConverter (getGribFilePath (timestamp (resolve time)))
                  (getJsonFilePath (timestamp (resolve time)))]
          else [HttpsGet (date (resolve time)) (hour (resolve time))
                  (getGribFilePath (timestamp (resolve time)))
                  (getJsonFilePath (timestamp (resolve time)))])
   \<and> fst ` set (files (complete i ev s))
     \<subseteq> fst ` set (files s)
       \<union> (if i < length (in_flight s)
          then (case in_flight s ! i of
                  HttpsGet d h g j \<Rightarrow> {getGribFilePath (d @ h)}
                | ExecConverter g j \<Rightarrow> {j})
          else {})
   \<and> (readFile (getJsonFilePath ts) (files (complete i ev s))
        = readFile (getJsonFilePath ts) (files s)
      \<or> (\<exists>g content. i < length (in_flight s)
            \<and> in_flight s ! i = ExecConverter g (getJsonFilePath ts)
            \<and> ev = ConverterExit (ConverterOk content)
            \<and> readFile (getJsonFilePath ts) (files (complete i ev s)) = Some content))"
  using maybeFetchGribData_files [of resolve time s]
    maybeFetchGribData_in_flight [of resolve time s]
    complete_creates_only_final_path [of i ev s]
    reader_sees_prior_or_whole [of ts i ev s]
  by (simp only: simp_thms)

text \<open>
  As stated, C8 fails: the artifact is not written to a temporary location and renamed.
  For the raw file of cycle 2024010100 the converter is started with the path
  \<^verbatim>\<open>json/2024010100.json\<close> as its output, which is the path the readers test; when it
  exits that file is there, and the step has left no other file.
\<close>

theorem no_temporary_path_counterexample:
  "convert_calls (maybeFetchGribData getNearestPublishedTime_http 1704085200000 raw_server)
     = [(''grib/2024010100.f000'', ''json/2024010100.json'')]
   \<and> converter_command ''grib/2024010100.f000'' ''json/2024010100.json''
     = ''converter/bin/grib2json --data --output json/2024010100.json --names --compact grib/2024010100.f000''
   \<and> getJsonFilePath (timestamp (getNearestPublishedTime_http 1704085200000))
     = ''json/2024010100.json''
   \<and> files (complete 0 (ConverterExit (ConverterOk ''[]''))
        (maybeFetchGribData getNearestPublishedTime_http 1704085200000 raw_server))
     = [(''json/2024010100.json'', ''[]'')]"
proof -
  have m: "maybeFetchGribData getNearestPublishedTime_http 1704085200000 raw_server
     = raw_server\<lparr>logged := [TargetTime 1704085200000 ''2024010100'',
                                 DueToBeFetched ''2024010100'',
                                 Converting ''grib/2024010100.f000''],
                   in_flight := [ExecConverter ''grib/2024010100.f000'' ''json/2024010100.json''],
                   convert_calls := [(''grib/2024010100.f000'', ''json/2024010100.json'')]\<rparr>"
    by (simp add: maybeFetchGribData_def Let_def http_at_0500 log_def convertGribToJson_def
        raw_server_def empty_server_def existsSync_def getJsonFilePath_def getGribFilePath_def
        JSON_DATA_DIR_def GRIB_DATA_DIR_def)
  have c: "converter_command ''grib/2024010100.f000'' ''json/2024010100.json''
     = ''converter/bin/grib2json --data --output json/2024010100.json --names --compact grib/2024010100.f000''"
    by (simp add: converter_command_def GRIB2JSON_BIN_PATH_def)
  have f: "files (complete 0 (ConverterExit (ConverterOk ''[]''))
        (maybeFetchGribData getNearestPublishedTime_http 1704085200000 raw_server))
     = [(''json/2024010100.json'', ''[]'')]"
    unfolding m
    by (simp add: complete_def convertGribToJson_callback_def Let_def log_def raw_server_def
        empty_server_def writeFile_def rm_all_def entry_name_def GRIB_DATA_DIR_def)
  show ?thesis
    using c f by (simp add: m http_at_0500 getJsonFilePath_def JSON_DATA_DIR_def)
qed

section \<open>Properties of the query handlers\<close>

text \<open>
  C9. The responses to a data query. In the express variant (\<^verbatim>\<open>/GetWindData\<close>): a missing
  or invalid \<^verbatim>\<open>isoTimestamp\<close> gives status 400 with an error body; a valid one whose
  resolved cycle has no JSON file gives 404 with an error body; a valid one whose
  resolved cycle has a JSON file that parses as JSON gives 200 with the parsed data and
  the cycle's \<^verbatim>\<open>YYYYMMDDHH\<close> timestamp. In the http variant every response has status
  200: a message body for a missing or invalid \<^verbatim>\<open>isoTimestamp\<close>, an error body when
  the cycle is not cached, and the file itself, with no timestamp, when it is.
\<close>

theorem query_responses:
  "(Option.bind q parse = None \<longrightarrow>
      GetWindData parse JSON_parse resolve q s
        = Some \<lparr>status = 400,
                 body = ErrorBody
                   ''Provide a valid isoTimestamp query parameter to get wind forecast data.''\<rparr>)
   \<and> (Option.bind q parse = Some t
        \<and> \<not> existsSync (getJsonFilePath (timestamp (resolve t))) (files s) \<longrightarrow>
      GetWindData parse JSON_parse resolve q s
        = Some \<lparr>status = 404, body = ErrorBody ''There's no data for the specified time.''\<rparr>)
   \<and> (Option.bind q parse = Some t
        \<and> readFile (getJsonFilePath (timestamp (resolve t))) (files s) = Some data
        \<and> JSON_parse data = Some j \<longrightarrow>
      GetWindData parse JSON_parse resolve q s
        = Some \<lparr>status = 200, body = DataBody j (timestamp (resolve t))\<rparr>)
   \<and> (http_handler parse resolve q s = Some r \<longrightarrow> status r = 200)
   \<and> (Option.bind q parse = Some t
        \<and> readFile (getJsonFilePath (timestamp (resolve t))) (files s) = Some data \<longrightarrow>
      http_handler parse resolve q s = Some \<lparr>status = 200, body = FileBody data\<rparr>)
   \<and> (Option.bind q parse = None \<longrightarrow>
      http_handler parse resolve q s
        = Some \<lparr>status = 200,
                 body = MessageBody
                   ''Provide a valid isoTimestamp query parameter to get wind forecast data.''\<rparr>)
   \<and> (Option.bind q parse = Some t
        \<and> \<not> existsSync (getJsonFilePath (timestamp (resolve t))) (files s) \<longrightarrow>
      http_handler parse resolve q s
        = Some \<lparr>status = 200, body = ErrorBody ''There's no data for the specified time.''\<rparr>)"
proof -
  have a: "Option.bind q parse = None \<longrightarrow>
      GetWindData parse JSON_parse resolve q s
        = Some \<lparr>status = 400,
                 body = ErrorBody
                   ''Provide a valid isoTimestamp query parameter to get wind forecast data.''\<rparr>"
    by (simp add: GetWindData_def)
  have b: "Option.bind q parse = Some t
        \<and> \<not> existsSync (getJsonFilePath (timestamp (resolve t))) (files s) \<longrightarrow>
      GetWindData parse JSON_parse resolve q s
        = Some \<lparr>status = 404, body = ErrorBody ''There's no data for the specified time.''\<rparr>"
    by (simp add: GetWindData_def Let_def)
  have c: "Option.bind q parse = Some t
        \<and> readFile (getJsonFilePath (timestamp (resolve t))) (files s) = Some data
        \<and> JSON_parse data = Some j \<longrightarrow>
      GetWindData parse JSON_parse resolve q s
        = Some \<lparr>status = 200, body = DataBody j (timestamp (resolve t))\<rparr>"
    by (simp add: GetWindData_def Let_def existsSync_readFile)
  have d: "http_handler parse resolve q s = Some r \<longrightarrow> status r = 200"
    by (auto simp: http_handler_def Let_def split: option.splits if_splits)
  have e: "Option.bind q parse = Some t
        \<and> readFile (getJsonFilePath (timestamp (resolve t))) (files s) = Some data \<longrightarrow>
      http_handler parse resolve q s = Some \<lparr>status = 200, body = FileBody data\<rparr>"
    by (simp add: http_handler_def Let_def existsSync_readFile)
  have f: "Option.bind q parse = None \<longrightarrow>
      http_handler parse resolve q s
        = Some \<lparr>status = 200,
                 body = MessageBody
                   ''Provide a valid isoTimestamp query parameter to get wind forecast data.''\<rparr>"
    by (simp add: http_handler_def)
  have g: "Option.bind q parse = Some t
        \<and> \<not> existsSync (getJsonFilePath (timestamp (resolve t))) (files s) \<longrightarrow>
      http_handler parse resolve q s
        = Some \<lparr>status = 200, body = ErrorBody ''There's no data for the specified time.''\<rparr>"
    by (simp add: http_handler_def Let_def)
  show ?thesis using a b c d e f g by blast
qed

theorem query_responses_witness:
  "GetWindData parse_iso_utc Some (getNearestPublishedTime 1717200000000) None empty_server
     = Some \<lparr>status = 400,
              body = ErrorBody
                ''Provide a valid isoTimestamp query parameter to get wind forecast data.''\<rparr>
   \<and> GetWindData parse_iso_utc Some (getNearestPublishedTime 1717200000000)
       (Some ''2024-01-01T05:00:00Z'') empty_server
     = Some \<lparr>status = 404, body = ErrorBody ''There's no data for the specified time.''\<rparr>
   \<and> GetWindData parse_iso_utc Some (getNearestPublishedTime 1717200000000)
       (Some ''2024-01-01T05:00:00Z'') warm_server
     = Some \<lparr>status = 200, body = DataBody ''[]'' ''2024010100''\<rparr>
   \<and> http_handler parse_iso_utc (getNearestPublishedTime 1717200000000)
       (Some ''2024-01-01T05:00:00Z'') warm_server
     = Some \<lparr>status = 200, body = FileBody ''[]''\<rparr>"
proof -
  let ?R = "getNearestPublishedTime 1717200000000"
  let ?q = "Some ''2024-01-01T05:00:00Z''"
  have h1: "Option.bind None parse_iso_utc = None" by simp
  have h2: "Option.bind ?q parse_iso_utc = Some 1704085200000"
    by (simp add: parse_examples)
  have h3: "\<not> existsSync (getJsonFilePath (timestamp (?R 1704085200000))) (files empty_server)"
    by (simp add: empty_server_def existsSync_def)
  have h4: "readFile (getJsonFilePath (timestamp (?R 1704085200000))) (files warm_server)
              = Some ''[]''"
    by (simp add: express_in_june warm_server_def empty_server_def readFile_def
        getJsonFilePath_def JSON_DATA_DIR_def)
  have h5: "Some ''[]'' = Some ''[]''" by simp
  have a: "GetWindData parse_iso_utc Some ?R None empty_server
     = Some \<lparr>status = 400,
              body = ErrorBody
                ''Provide a valid isoTimestamp query parameter to get wind forecast data.''\<rparr>"
    using h1 query_responses [where parse = parse_iso_utc and JSON_parse = Some
      and resolve = ?R and q = None and s = empty_server and t = 0 and data = "[]"
      and j = "[]" and r = "\<lparr>status = 200, body = FileBody []\<rparr>"]
    by blast
  have b: "GetWindData parse_iso_utc Some ?R ?q empty_server
     = Some \<lparr>status = 404, body = ErrorBody ''There's no data for the specified time.''\<rparr>"
    using h2 h3 query_responses [where parse = parse_iso_utc and JSON_parse = Some
      and resolve = ?R and q = ?q and s = empty_server and t = 1704085200000 and data = "[]"
      and j = "[]" and r = "\<lparr>status = 200, body = FileBody []\<rparr>"]
    by blast
  have c: "GetWindData parse_iso_utc Some ?R ?q warm_server
             = Some \<lparr>status = 200, body = DataBody ''[]'' (timestamp (?R 1704085200000))\<rparr>
           \<and> http_handler parse_iso_utc ?R ?q warm_server
             = Some \<lparr>status = 200, body = FileBody ''[]''\<rparr>"
    using h2 h4 h5 query_responses [where parse = parse_iso_utc and JSON_parse = Some
      and resolve = ?R and q = ?q and s = warm_server and t = 1704085200000
      and data = "''[]''" and j = "''[]''"
      and r = "\<lparr>status = 200, body = FileBody ''[]''\<rparr>"]
    by blast
  show ?thesis
    using a b c by (simp add: express_in_june)
qed

text \<open>
  The claim as stated fails in the http variant: a query with no \<^verbatim>\<open>isoTimestamp\<close> and a
  query for a cycle that is not cached are both answered with status 200, and so is a
  query for a cached cycle, whose body is the file alone.
\<close>

theorem http_status_counterexample:
  "http_handler parse_iso_utc getNearestPublishedTime_http None empty_server
     = Some \<lparr>status = 200,
              body = MessageBody
                ''Provide a valid isoTimestamp query parameter to get wind forecast data.''\<rparr>
   \<and> http_handler parse_iso_utc getNearestPublishedTime_http
       (Some ''2024-01-01T05:00:00Z'') empty_server
     = Some \<lparr>status = 200, body = ErrorBody ''There's no data for the specified time.''\<rparr>
   \<and> http_handler parse_iso_utc getNearestPublishedTime_http
       (Some ''2024-01-01T05:00:00Z'') warm_server
     = Some \<lparr>status = 200, body = FileBody ''[]''\<rparr>"
  by (simp add: http_handler_def parse_examples http_at_0500 Let_def empty_server_def
      warm_server_def existsSync_def readFile_def getJsonFilePath_def JSON_DATA_DIR_def)

section \<open>Calls for the same cycle\<close>

text \<open>
  C10. There is no guard against a second attempt for a cycle. Every call of
  \<^verbatim>\<open>maybeFetchGribData\<close> that finds neither the JSON file nor the raw file of its cycle
  sends its own request, whatever is in flight: \<open>n\<close> calls made before any response
  arrives send \<open>n\<close> requests for the same cycle, all in flight together. Only the
  existence of the files, once an attempt has written them, stops later calls (C3).
\<close>

theorem no_in_flight_guard:
  "(let c = resolve time;
        json = getJsonFilePath (timestamp c);
        grib = getGribFilePath (timestamp c);
        s' = (maybeFetchGribData resolve time ^^ n) s
    in \<not> existsSync json (files s) \<and> \<not> existsSync grib (files s) \<longrightarrow>
         fetch_calls s' = fetch_calls s @ replicate n (date c, hour c)
         \<and> in_flight s' = in_flight s @ replicate n (HttpsGet (date c) (hour c) grib json))"
proof -
  have "fetch_calls ((maybeFetchGribData resolve time ^^ n) s)
          = fetch_calls s @ replicate n (date (resolve time), hour (resolve time))
      \<and> in_flight ((maybeFetchGribData resolve time ^^ n) s)
          = in_flight s @ replicate n (HttpsGet (date (resolve time)) (hour (resolve time))
              (getGribFilePath (timestamp (resolve time)))
              (getJsonFilePath (timestamp (resolve time))))"
    if miss: "\<not> existsSync (getJsonFilePath (timestamp (resolve time))) (files s)"
             "\<not> existsSync (getGribFilePath (timestamp (resolve time))) (files s)"
  proof (induction n)
    case 0
    show ?case by simp
  next
    case (Suc n)
    then show ?case
      using miss
      by (simp add: maybeFetchGribData_fetch_calls maybeFetchGribData_in_flight
          maybeFetchGribData_funpow_files replicate_append_same)
  qed
  then show ?thesis unfolding Let_def by blast
qed

theorem no_in_flight_guard_witness:
  "fetch_calls ((maybeFetchGribData getNearestPublishedTime_http 1704085200000 ^^ 3) empty_server)
     = [(''20240101'', ''00''), (''20240101'', ''00''), (''20240101'', ''00'')]"
proof -
  have h: "\<not> existsSync (getJsonFilePath (timestamp (getNearestPublishedTime_http 1704085200000)))
              (files empty_server)"
          "\<not> existsSync (getGribFilePath (timestamp (getNearestPublishedTime_http 1704085200000)))
              (files empty_server)"
    by (simp_all add: empty_server_def existsSync_def)
  have l: "fetch_calls empty_server = []" by (simp add: empty_server_def)
  have r: "replicate 3 (''20240101'', ''00'')
             = [(''20240101'', ''00''), (''20240101'', ''00''), (''20240101'', ''00'')]"
    by code_simp
  show ?thesis
    using h no_in_flight_guard [where resolve = getNearestPublishedTime_http
        and time = 1704085200000 and s = empty_server and n = 3]
    by (simp add: Let_def l http_at_0500 r)
qed

text \<open>
  The claim as stated fails: started at 2024-01-01T02:00:00Z on an empty cache, the
  express variant resolves both \<open>now\<close> and \<open>now - 6h\<close> to cycle 2023123118 and sends
  two requests for it; and two calls in a row for the same time send two requests in the
  http variant too.
\<close>

theorem duplicate_fetch_counterexample:
  "fetch_calls (init (getNearestPublishedTime 1704074400000) 1704074400000 empty_server)
     = [(''20231231'', ''18''), (''20231231'', ''18''), (''20231231'', ''12''),
        (''20231231'', ''06''), (''20231231'', ''00'')]
   \<and> fetch_calls
        (maybeFetchGribData getNearestPublishedTime_http 1704085200000
          (maybeFetchGribData getNearestPublishedTime_http 1704085200000 empty_server))
     = [(''20240101'', ''00''), (''20240101'', ''00'')]"
proof -
  have e: "files empty_server = []" "fetch_calls empty_server = []"
    by (simp_all add: empty_server_def)
  have "fetch_calls (init (getNearestPublishedTime 1704074400000) 1704074400000 empty_server)
     = concat (map (\<lambda>c. [(date c, hour c)])
         (map (\<lambda>hours. getNearestPublishedTime 1704074400000 (subtract_hours hours 1704074400000))
           (getIncrementalArray KEEP_LAST_N_DATASETS 6)))"
    unfolding init_def fold_maybeFetchGribData_fetch_calls
    by (simp add: e existsSync_def Let_def comp_def)
  then have "fetch_calls (init (getNearestPublishedTime 1704074400000) 1704074400000 empty_server)
     = [(''20231231'', ''18''), (''20231231'', ''18''), (''20231231'', ''12''),
        (''20231231'', ''06''), (''20231231'', ''00'')]"
    unfolding express_init_at_0200 by simp
  then show ?thesis
    by (simp add: maybeFetchGribData_fetch_calls maybeFetchGribData_files http_at_0500
        e existsSync_def)
qed

end
